theory Spec2Isabelle
  imports Main "HOL-Library.Sublist" "HOL-Library.Code_Target_Nat"
begin

section \<open>Python values used by the /drive command\<close>

text \<open>
  A Python \<open>str\<close> is a sequence of Unicode code points; slicing and \<open>len\<close> count code
  points.  A string is therefore a list of code points, and \<open>ascii\<close> embeds an ASCII
  literal.
\<close>

type_synonym pystr = "nat list"

definition ascii :: "string \<Rightarrow> pystr" where
  "ascii s = map of_char s"

text \<open>The exceptions (instances of Python's \<open>Exception\<close>) that the module can meet.
  \<open>External\<close> stands for whatever a collaborator (drive client, chat client) raises.\<close>

datatype exn = KeyError | ValueError | IndexError | ZeroDivisionError | External pystr

text \<open>\<open>str.replace(old, new)\<close>: every non-overlapping occurrence of \<open>old\<close>, scanning
  from the left, is replaced by \<open>new\<close>.  With an empty \<open>old\<close>, \<open>new\<close> is inserted before
  every character and at the end; \<open>py_replace\<close> treats that case itself, so the scan
  only ever runs with a non-empty \<open>old\<close>.\<close>

fun replace_scan :: "pystr \<Rightarrow> pystr \<Rightarrow> pystr \<Rightarrow> pystr" where
  "replace_scan old new [] = []"
| "replace_scan [] new (c # cs) = c # cs"
| "replace_scan (k # ks) new (c # cs) =
     (if prefix (k # ks) (c # cs)
      then new @ replace_scan (k # ks) new (drop (length ks) cs)
      else c # replace_scan (k # ks) new cs)"

definition py_replace :: "pystr \<Rightarrow> pystr \<Rightarrow> pystr \<Rightarrow> pystr" where
  "py_replace old new s =
     (if old = [] then new @ concat (map (\<lambda>c. c # new) s) else replace_scan old new s)"

text \<open>\<open>str.split(sep)\<close> for a one-character separator: the pieces between the
  separators, always at least one piece.\<close>

fun py_split :: "nat \<Rightarrow> pystr \<Rightarrow> pystr list" where
  "py_split sep [] = [[]]"
| "py_split sep (c # cs) =
     (if c = sep then [] # py_split sep cs
      else (case py_split sep cs of
              [] \<Rightarrow> [[c]]
            | p # ps \<Rightarrow> (c # p) # ps))"

text \<open>\<open>str(n)\<close> for an integer, as an f-string renders it.\<close>

fun digits :: "nat \<Rightarrow> pystr" where
  "digits n = (if n < 10 then [48 + n] else digits (n div 10) @ [48 + n mod 10])"

definition str_of_int :: "int \<Rightarrow> pystr" where
  "str_of_int n = (if n < 0 then 45 # digits (nat (- n)) else digits (nat n))"

section \<open>Drive items and buttons\<close>

text \<open>
  A \<open>GoogleDriveFile\<close> is a dictionary of metadata.  The keys the module reads are
  fields here; a key that the drive service may leave out is optional, and reading it
  when absent raises \<open>KeyError\<close>.  \<open>parents\<close> keeps the \<open>id\<close> of each parent entry;
  \<open>fileSize\<close> is the outcome of \<open>int(file['fileSize'])\<close>.
\<close>

datatype size_field = NoSize | BadSize | Size int

record drive_file =
  mimeType :: pystr
  ident :: pystr
  title :: pystr
  parents :: "pystr list"
  exportLinks :: "(pystr \<times> pystr) list option"
  fileSize :: size_field
  alternateLink :: "pystr option"

record button =
  btn_text :: pystr
  callback_data :: pystr

type_synonym keyboard = "button list list"

definition folder_mime :: pystr where
  "folder_mime = ascii ''application/vnd.google-apps.folder''"

definition document_mime :: pystr where
  "document_mime = ascii ''application/vnd.google-apps.document''"

definition pdf_mime :: pystr where
  "pdf_mime = ascii ''application/pdf''"

definition drive_prefix :: pystr where
  "drive_prefix = ascii ''drive_file_''"

definition root_folder_id :: pystr where
  "root_folder_id = ascii ''0ADXK_Yx5406vUk9PVA''"

section \<open>The keyboard builder \<open>get_files_keyboard\<close>\<close>

text \<open>A value of the \<open>formats\<close> table is a string or, for the keys of the
  \<open>dict.fromkeys([' a', 'b', 'c'], 10)\<close> entry, the integer 10.\<close>

datatype pyval = PStr pystr | PInt int

definition fromkeys :: "pystr list \<Rightarrow> pyval \<Rightarrow> (pystr \<times> pyval) list" where
  "fromkeys ks v = map (\<lambda>k. (k, v)) ks"

text \<open>The glyphs: U+1F4D5 (closed book), U+1F4C4 (page), U+1F4F7 (camera), U+1F4E6
  (package), U+2699 (gear), U+1F4BB (computer), U+1F5C2 (card index dividers), each
  followed by a space (32) inside the literal.\<close>

definition icon_pdf :: pystr where "icon_pdf = [0x1F4D5, 32]"
definition icon_doc :: pystr where "icon_doc = [0x1F4C4, 32]"
definition icon_img :: pystr where "icon_img = [0x1F4F7, 32]"
definition icon_zip :: pystr where "icon_zip = [0x1F4E6, 32]"
definition icon_exe :: pystr where "icon_exe = [0x2699, 32]"
definition icon_code :: pystr where "icon_code = [0x1F4BB, 32]"
definition icon_folder :: pystr where "icon_folder = [0x1F5C2, 32]"

text \<open>The dictionary display merges its parts from left to right, a later part
  overriding an earlier one on a common key (\<open>'c'\<close>).\<close>

definition formats :: "pystr \<rightharpoonup> pyval" where
  "formats =
     map_of [(ascii ''pdf'', PStr icon_pdf)]
     ++ map_of (fromkeys [ascii '' a'', ascii ''b'', ascii ''c''] (PInt 10))
     ++ map_of (fromkeys [ascii ''doc'', ascii ''docx'', ascii ''txt''] (PStr icon_doc))
     ++ map_of (fromkeys [ascii ''jpg'', ascii ''png'', ascii ''gif''] (PStr icon_img))
     ++ map_of (fromkeys [ascii ''rar'', ascii ''zip''] (PStr icon_zip))
     ++ map_of (fromkeys [ascii ''out'', ascii ''exe''] (PStr icon_exe))
     ++ map_of (fromkeys [ascii ''c'', ascii ''cpp'', ascii ''h'', ascii ''py'',
                          ascii ''java'', ascii ''js'', ascii ''html'', ascii ''php'']
                         (PStr icon_code))"

text \<open>\<open>title[-5:]\<close>: the last five code points, or the whole title when shorter.\<close>

definition last5 :: "pystr \<Rightarrow> pystr" where
  "last5 s = drop (length s - 5) s"

text \<open>\<open>file_format.split(".")[-1]\<close>; the split never returns an empty list.\<close>

definition file_format :: "pystr \<Rightarrow> pystr" where
  "file_format t = last (py_split 46 (last5 t))"

definition icon_of :: "drive_file \<Rightarrow> pyval" where
  "icon_of file =
     (if mimeType file = folder_mime then PStr icon_folder
      else (case formats (file_format (title file)) of
              None \<Rightarrow> PStr icon_doc
            | Some v \<Rightarrow> v))"

text \<open>How an f-string renders a value.\<close>

fun format_value :: "pyval \<Rightarrow> pystr" where
  "format_value (PStr s) = s"
| "format_value (PInt n) = str_of_int n"

definition keyboard_button :: "drive_file \<Rightarrow> button" where
  "keyboard_button file =
     \<lparr> btn_text = format_value (icon_of file) @ [32] @ title file,
       callback_data = drive_prefix @ ident file \<rparr>"

text \<open>\<open>keyboard[j].append(b)\<close> with Python's indexing: a negative index counts from
  the end, and an index outside the list raises \<open>IndexError\<close>.\<close>

definition append_to_row :: "keyboard \<Rightarrow> int \<Rightarrow> button \<Rightarrow> exn + keyboard" where
  "append_to_row kb j b =
     (let n = int (length kb); k = (if j < 0 then n + j else j)
      in if 0 \<le> k \<and> k < n then Inr (kb[nat k := kb ! nat k @ [b]])
         else Inl IndexError)"

text \<open>The \<open>for i, file in enumerate(file_list)\<close> loop, with the index and the keyboard
  built so far as loop state.  \<open>%\<close> and \<open>//\<close> are Python's floor operations, which
  \<open>mod\<close> and \<open>div\<close> on \<open>int\<close> are; a zero \<open>row_len\<close> raises.\<close>

fun keyboard_loop :: "int \<Rightarrow> nat \<Rightarrow> drive_file list \<Rightarrow> keyboard \<Rightarrow> exn + keyboard" where
  "keyboard_loop row_len i [] kb = Inr kb"
| "keyboard_loop row_len i (file # rest) kb =
     (if row_len = 0 then Inl ZeroDivisionError
      else if int i mod row_len = 0
      then keyboard_loop row_len (Suc i) rest (kb @ [[keyboard_button file]])
      else (case append_to_row kb (int i div row_len) (keyboard_button file) of
              Inl e \<Rightarrow> Inl e
            | Inr kb' \<Rightarrow> keyboard_loop row_len (Suc i) rest kb'))"

definition get_files_keyboard :: "drive_file list \<Rightarrow> int \<Rightarrow> exn + keyboard" where
  "get_files_keyboard file_list row_len = keyboard_loop row_len 0 file_list []"

section \<open>Collaborators and effects\<close>

text \<open>
  The handlers talk to the chat platform (\<open>bot\<close>, \<open>callback_query.answer\<close>), the drive
  client (\<open>drive_utils\<close>, \<open>GetContentIOBuffer\<close>), \<open>check_log\<close> and \<open>log_error\<close>.  Every
  call is recorded, in order, in a trace; a call that raises is recorded too, as the
  attempt that it is.
\<close>

datatype text_id =
    GROUP_WARNING_TEXT_ID
  | DRIVE_HEADER_TEXT_ID
  | DRIVE_ERROR_DEVS_TEXT_ID
  | BACK_BUTTON_TEXT_TEXT_ID
  | DRIVE_ERROR_GFILE_TEXT_ID
  | DRIVE_ERROR_TOO_BIG_TEXT_ID

datatype call =
    CheckLog pystr
  | ListFiles "pystr option"
  | GetFile pystr
  | GetContentIOBuffer pystr
  | SendMessage int pystr "keyboard option"
  | EditMessageText int int pystr "keyboard option"
  | SendChatAction int pystr
  | SendDocument int "nat list" pystr
  | LogError pystr exn
  | Answer

text \<open>
  The collaborators are outside the module, so they are parameters.  What a call
  answers may depend on everything that happened before it: each one receives the
  trace so far.  \<open>perform\<close> covers the calls whose result the module ignores and says
  whether the call raises.  \<open>PLACE_HOLDER\<close> and the locale table come from
  \<open>module.data.vars\<close> and \<open>module.utils.multi_lang_utils\<close>.
\<close>

record env =
  PLACE_HOLDER :: pystr
  get_locale :: "pystr option \<Rightarrow> text_id \<Rightarrow> pystr"
  get_file :: "call list \<Rightarrow> pystr \<Rightarrow> exn + drive_file"
  list_files :: "call list \<Rightarrow> pystr option \<Rightarrow> exn + drive_file list option"
  get_content :: "call list \<Rightarrow> drive_file \<Rightarrow> exn + nat list"
  perform :: "call list \<Rightarrow> call \<Rightarrow> exn option"

text \<open>The fields of the incoming update that the handlers read: \<open>message.chat_id\<close>
  for \<open>/drive\<close>; \<open>callback_query.data\<close>, \<open>from_user.id\<close> and \<open>message.message_id\<close> for a
  button press; \<open>from_user.language_code\<close> for both.\<close>

record update =
  chat_id :: int
  user_id :: int
  message_id :: int
  language_code :: "pystr option"
  data :: pystr

text \<open>A computation takes the trace so far and returns its result, or the exception
  it raised, with the extended trace.\<close>

type_synonym 'a io = "call list \<Rightarrow> (exn + 'a) \<times> call list"

definition io_return :: "'a \<Rightarrow> 'a io" where
  "io_return x = (\<lambda>h. (Inr x, h))"

definition io_raise :: "exn \<Rightarrow> 'a io" where
  "io_raise e = (\<lambda>h. (Inl e, h))"

definition io_bind :: "'a io \<Rightarrow> ('a \<Rightarrow> 'b io) \<Rightarrow> 'b io" where
  "io_bind m f = (\<lambda>h. case m h of (Inl e, h') \<Rightarrow> (Inl e, h') | (Inr x, h') \<Rightarrow> f x h')"

text \<open>\<open>try: m except Exception as err: handler(err)\<close>\<close>

definition io_try :: "'a io \<Rightarrow> (exn \<Rightarrow> 'a io) \<Rightarrow> 'a io" where
  "io_try m handler = (\<lambda>h. case m h of (Inl e, h') \<Rightarrow> handler e h' | (Inr x, h') \<Rightarrow> (Inr x, h'))"

definition io_lift :: "exn + 'a \<Rightarrow> 'a io" where
  "io_lift r = (case r of Inl e \<Rightarrow> io_raise e | Inr x \<Rightarrow> io_return x)"

definition do_call :: "env \<Rightarrow> call \<Rightarrow> unit io" where
  "do_call E c = (\<lambda>h. (case perform E h c of None \<Rightarrow> Inr () | Some e \<Rightarrow> Inl e, h @ [c]))"

definition call_get_file :: "env \<Rightarrow> pystr \<Rightarrow> drive_file io" where
  "call_get_file E i = (\<lambda>h. (get_file E h i, h @ [GetFile i]))"

definition call_list_files :: "env \<Rightarrow> pystr option \<Rightarrow> drive_file list option io" where
  "call_list_files E folder = (\<lambda>h. (list_files E h folder, h @ [ListFiles folder]))"

definition call_get_content :: "env \<Rightarrow> drive_file \<Rightarrow> nat list io" where
  "call_get_content E file = (\<lambda>h. (get_content E h file, h @ [GetContentIOBuffer (ident file)]))"

section \<open>The \<open>/drive\<close> command\<close>

text \<open>\<open>if file_list:\<close> is false for \<open>None\<close> and for the empty list.\<close>

fun truthy :: "drive_file list option \<Rightarrow> bool" where
  "truthy None = False"
| "truthy (Some fl) = (fl \<noteq> [])"

definition drive :: "env \<Rightarrow> update \<Rightarrow> unit io" where
  "drive E u =
     io_bind (do_call E (CheckLog (ascii ''drive''))) (\<lambda>_.
       if chat_id u < 0
       then do_call E (SendMessage (chat_id u)
              (py_replace (PLACE_HOLDER E) (ascii ''/drive'')
                 (get_locale E (language_code u) GROUP_WARNING_TEXT_ID)) None)
       else io_bind (call_list_files E None) (\<lambda>file_list.
              if truthy file_list
              then io_bind (io_lift (get_files_keyboard (the file_list) 3)) (\<lambda>keyboard.
                     do_call E (SendMessage (chat_id u)
                       (get_locale E (language_code u) DRIVE_HEADER_TEXT_ID) (Some keyboard)))
              else do_call E (SendMessage (chat_id u)
                     (get_locale E (language_code u) DRIVE_ERROR_DEVS_TEXT_ID) None)))"

section \<open>The button handler \<open>drive_handler\<close>\<close>

text \<open>The token a button carries, and how the handler reads it back.\<close>

definition drive_encode :: "pystr \<Rightarrow> pystr" where
  "drive_encode i = drive_prefix @ i"

definition drive_decode :: "pystr \<Rightarrow> pystr" where
  "drive_decode d = py_replace drive_prefix [] d"

text \<open>A branch of the handler either executes \<open>return\<close> or reaches the end of the
  \<open>if\<close> statement, after which the callback is answered.\<close>

datatype flow = Returned | FellThrough

text \<open>The row appended after the listing of a folder.\<close>

definition back_row :: "env \<Rightarrow> pystr option \<Rightarrow> drive_file \<Rightarrow> keyboard" where
  "back_row E locale fetched_file =
     (if length (parents fetched_file) > 0 \<and> hd (parents fetched_file) \<noteq> root_folder_id
      then [[\<lparr> btn_text = get_locale E locale BACK_BUTTON_TEXT_TEXT_ID,
               callback_data = drive_prefix @ hd (parents fetched_file) \<rparr>]]
      else [])"

definition folder_branch :: "env \<Rightarrow> update \<Rightarrow> drive_file \<Rightarrow> flow io" where
  "folder_branch E u fetched_file =
     io_bind (call_list_files E (Some (ident fetched_file))) (\<lambda>file_list.
       case file_list of
         None \<Rightarrow>
           io_bind (do_call E (EditMessageText (user_id u) (message_id u)
                      (get_locale E (language_code u) DRIVE_ERROR_DEVS_TEXT_ID) None))
             (\<lambda>_. io_return Returned)
       | Some fl \<Rightarrow>
           io_bind (io_lift (get_files_keyboard fl 2)) (\<lambda>keyboard.
           io_bind (do_call E (EditMessageText (user_id u) (message_id u)
                      (title fetched_file @ ascii '':'')
                      (Some (keyboard @ back_row E (language_code u) fetched_file))))
             (\<lambda>_. io_return FellThrough)))"

text \<open>\<open>fetched_file['exportLinks']['application/pdf']\<close>\<close>

definition pdf_export_link :: "drive_file \<Rightarrow> exn + pystr" where
  "pdf_export_link file =
     (case exportLinks file of
        None \<Rightarrow> Inl KeyError
      | Some links \<Rightarrow> (case map_of links pdf_mime of None \<Rightarrow> Inl KeyError | Some l \<Rightarrow> Inr l))"

definition document_branch :: "env \<Rightarrow> update \<Rightarrow> drive_file \<Rightarrow> flow io" where
  "document_branch E u fetched_file =
     io_bind (io_lift (pdf_export_link fetched_file)) (\<lambda>link.
     io_bind (do_call E (SendMessage (user_id u)
                (py_replace (PLACE_HOLDER E) link
                   (get_locale E (language_code u) DRIVE_ERROR_GFILE_TEXT_ID)) None))
       (\<lambda>_. io_return FellThrough))"

text \<open>\<open>int(file_d['fileSize'])\<close>\<close>

fun int_file_size :: "size_field \<Rightarrow> exn + int" where
  "int_file_size NoSize = Inl KeyError"
| "int_file_size BadSize = Inl ValueError"
| "int_file_size (Size n) = Inr n"

definition alternate_link :: "drive_file \<Rightarrow> exn + pystr" where
  "alternate_link file = (case alternateLink file of None \<Rightarrow> Inl KeyError | Some l \<Rightarrow> Inr l)"

text \<open>The body of the \<open>try\<close> statement.  \<open>5e7\<close> is the float 50000000.0, and Python
  compares an \<open>int\<close> with a \<open>float\<close> by value.\<close>

definition send_file :: "env \<Rightarrow> update \<Rightarrow> drive_file \<Rightarrow> unit io" where
  "send_file E u fetched_file =
     io_bind (call_get_file E (ident fetched_file)) (\<lambda>file_d.
     io_bind (io_lift (int_file_size (fileSize file_d))) (\<lambda>size.
       if size < 50000000
       then io_bind (call_get_content E file_d) (\<lambda>f.
            io_bind (do_call E (SendChatAction (user_id u) (ascii ''UPLOAD_DOCUMENT''))) (\<lambda>_.
            do_call E (SendDocument (user_id u) f (title fetched_file))))
       else io_bind (io_lift (alternate_link file_d)) (\<lambda>link.
            do_call E (SendMessage (user_id u)
              (py_replace (PLACE_HOLDER E) link
                 (get_locale E (language_code u) DRIVE_ERROR_TOO_BIG_TEXT_ID)) None))))"

definition file_branch :: "env \<Rightarrow> update \<Rightarrow> drive_file \<Rightarrow> flow io" where
  "file_branch E u fetched_file =
     io_bind (io_try (send_file E u fetched_file)
                (\<lambda>err. do_call E (LogError (ascii ''drive_handler'') err)))
       (\<lambda>_. io_return FellThrough)"

definition drive_handler :: "env \<Rightarrow> update \<Rightarrow> unit io" where
  "drive_handler E u =
     io_bind (call_get_file E (drive_decode (data u))) (\<lambda>fetched_file.
     io_bind (if mimeType fetched_file = folder_mime then folder_branch E u fetched_file
              else if mimeType fetched_file = document_mime then document_branch E u fetched_file
              else file_branch E u fetched_file)
       (\<lambda>fl. case fl of Returned \<Rightarrow> io_return () | FellThrough \<Rightarrow> do_call E Answer))"

section \<open>The layout the specification describes\<close>

text \<open>The specification's grid: the items from left to right and top to bottom, a
  new row every \<open>W\<close> items.  The builder is compared with it below.\<close>

fun rows_of :: "nat \<Rightarrow> 'a list \<Rightarrow> 'a list list" where
  "rows_of W xs = (if W = 0 \<or> xs = [] then [] else take W xs # rows_of W (drop W xs))"

declare rows_of.simps [simp del]

text \<open>Three regular files with the names of the specification's example.\<close>

definition example_file :: "string \<Rightarrow> string \<Rightarrow> drive_file" where
  "example_file t i =
     \<lparr> mimeType = pdf_mime, ident = ascii i, title = ascii t, parents = [],
       exportLinks = None, fileSize = Size 1000, alternateLink = None \<rparr>"

definition example_files :: "drive_file list" where
  "example_files =
     [example_file ''report.pdf'' ''id1'', example_file ''photo.jpg'' ''id2'',
      example_file ''notes.txt'' ''id3'']"

section \<open>Example collaborators\<close>

text \<open>A set of collaborators for concrete runs: every fetch answers \<open>f\<close>, every
  listing answers \<open>listing\<close>, a content buffer holds three bytes, and \<open>fails\<close> says which
  of the other calls raise.\<close>

definition example_env :: "drive_file \<Rightarrow> drive_file list option \<Rightarrow> (call \<Rightarrow> exn option) \<Rightarrow> env" where
  "example_env f listing fails =
     \<lparr> PLACE_HOLDER = ascii ''%placeholder%'',
       get_locale = (\<lambda>_ _. ascii ''see %placeholder%''),
       get_file = (\<lambda>_ _. Inr f),
       list_files = (\<lambda>_ _. Inr listing),
       get_content = (\<lambda>_ _. Inr [1, 2, 3]),
       perform = (\<lambda>_. fails) \<rparr>"

definition example_update :: update where
  "example_update =
     \<lparr> chat_id = 7, user_id = 7, message_id = 42, language_code = None,
       data = ascii ''drive_file_abc'' \<rparr>"

definition group_update :: update where
  "group_update = example_update \<lparr> chat_id := - 100 \<rparr>"

definition example_folder :: "pystr list \<Rightarrow> drive_file" where
  "example_folder ps =
     \<lparr> mimeType = folder_mime, ident = ascii ''abc'', title = ascii ''Notes'', parents = ps,
       exportLinks = None, fileSize = NoSize, alternateLink = None \<rparr>"

definition example_sized :: "int \<Rightarrow> drive_file" where
  "example_sized n =
     \<lparr> mimeType = pdf_mime, ident = ascii ''abc'', title = ascii ''report.pdf'', parents = [],
       exportLinks = None, fileSize = Size n, alternateLink = Some (ascii ''http://x/abc'') \<rparr>"

text \<open>A chat client whose \<open>sendDocument\<close> raises, every other call succeeding.\<close>

fun document_send_fails :: "call \<Rightarrow> exn option" where
  "document_send_fails (SendDocument c d nm) = Some (External (ascii ''timed out''))"
| "document_send_fails _ = None"

section \<open>Facts about \<open>str.replace\<close>\<close>

lemma replace_scan_length_le: "length (replace_scan old [] s) \<le> length s"
proof (induction old "[]::pystr" s rule: replace_scan.induct)
  case (3 k ks c cs)
  show ?case
  proof (cases "prefix (k # ks) (c # cs)")
    case True
    with 3(1) have "length (replace_scan (k # ks) [] (drop (length ks) cs)) \<le> length cs - length ks"
      by simp
    with True show ?thesis by simp
  next
    case False
    with 3(2) show ?thesis by auto
  qed
qed simp_all

lemma replace_scan_absent: "\<not> sublist (k # ks) s \<Longrightarrow> replace_scan (k # ks) new s = s"
proof (induction s)
  case (Cons c cs)
  then have "\<not> prefix (k # ks) (c # cs)" "\<not> sublist (k # ks) cs"
    by (auto simp: sublist_Cons_right)
  with Cons.IH show ?case by auto
qed simp

lemma replace_scan_present: "sublist (k # ks) s \<Longrightarrow> length (replace_scan (k # ks) [] s) < length s"
proof (induction s)
  case Nil
  then show ?case by simp
next
  case (Cons c cs)
  show ?case
  proof (cases "prefix (k # ks) (c # cs)")
    case True
    have "length (replace_scan (k # ks) [] (drop (length ks) cs)) \<le> length cs"
      using replace_scan_length_le [of "k # ks" "drop (length ks) cs"] by simp
    with True show ?thesis by simp
  next
    case False
    with Cons.prems have "sublist (k # ks) cs" by (auto simp: sublist_Cons_right)
    with Cons.IH False show ?thesis by auto
  qed
qed

lemma replace_scan_prefix: "replace_scan (k # ks) new ((k # ks) @ s) = new @ replace_scan (k # ks) new s"
  by simp

section \<open>Icons\<close>

text \<open>
  C8.  The icon of an item is determined by whether the item is a folder and by the
  last five characters of its title: two items that agree on both get the same icon,
  whatever their other fields are.
\<close>

theorem icon_of_deterministic:
  assumes "(mimeType f = folder_mime) = (mimeType g = folder_mime)"
    and "last5 (title f) = last5 (title g)"
  shows "icon_of f = icon_of g"
  using assms by (simp add: icon_of_def file_format_def)

theorem icon_of_deterministic_witness:
  "icon_of (example_file ''report.pdf'' ''id1'') = icon_of (example_file ''t.pdf'' ''other'')"
proof -
  have k: "(mimeType (example_file ''report.pdf'' ''id1'') = folder_mime)
         = (mimeType (example_file ''t.pdf'' ''other'') = folder_mime)"
    by (simp add: example_file_def)
  have t: "last5 (title (example_file ''report.pdf'' ''id1''))
         = last5 (title (example_file ''t.pdf'' ''other''))"
    by (simp add: example_file_def last5_def ascii_def)
  from icon_of_deterministic [OF k t] show ?thesis .
qed

section \<open>The builder lays the buttons out as the specification's grid\<close>

lemma rows_of_Nil: "rows_of W [] = []"
  by (simp add: rows_of.simps)

lemma rows_of_unfold: "0 < W \<Longrightarrow> xs \<noteq> [] \<Longrightarrow> rows_of W xs = take W xs # rows_of W (drop W xs)"
  by (subst rows_of.simps) simp

lemma concat_rows_of: "0 < W \<Longrightarrow> concat (rows_of W xs) = xs"
proof (induction W xs rule: rows_of.induct)
  case (1 W xs)
  then show ?case by (cases "xs = []") (simp_all add: rows_of_Nil rows_of_unfold)
qed

lemma length_rows_of_Suc:
  "0 < W \<Longrightarrow> xs \<noteq> [] \<Longrightarrow> length (rows_of W xs) = Suc ((length xs - 1) div W)"
proof (induction W xs rule: rows_of.induct)
  case (1 W xs)
  show ?case
  proof (cases "length xs \<le> W")
    case True
    with 1(3) have "length xs - 1 < W" by (cases xs) simp_all
    with True 1(2,3) show ?thesis by (simp add: rows_of_unfold rows_of_Nil)
  next
    case False
    then have ne: "drop W xs \<noteq> []" by simp
    from False have "length xs - 1 = (length xs - W - 1) + W" by simp
    then have "(length xs - 1) div W = Suc ((length xs - W - 1) div W)"
      using 1(2) by (metis div_add_self2 Suc_eq_plus1 less_numeral_extra(3))
    with 1 ne show ?thesis by (simp add: rows_of_unfold)
  qed
qed

lemma length_rows_of: "0 < W \<Longrightarrow> length (rows_of W xs) = (length xs + W - 1) div W"
proof (cases "xs = []")
  case True
  assume "0 < W"
  with True show ?thesis by (simp add: rows_of_Nil)
next
  case False
  assume W: "0 < W"
  from False have "length xs + W - 1 = (length xs - 1) + W" by (cases xs) simp_all
  then have "(length xs + W - 1) div W = Suc ((length xs - 1) div W)"
    using W by (metis div_add_self2 Suc_eq_plus1 less_numeral_extra(3))
  with length_rows_of_Suc [OF W False] show ?thesis by simp
qed

lemma nth_rows_of:
  "0 < W \<Longrightarrow> r < length (rows_of W xs) \<Longrightarrow> rows_of W xs ! r = take W (drop (r * W) xs)"
proof (induction r arbitrary: xs)
  case 0
  then have "xs \<noteq> []" by (auto simp: rows_of_Nil)
  with 0 show ?case by (simp add: rows_of_unfold)
next
  case (Suc r)
  then have ne: "xs \<noteq> []" by (auto simp: rows_of_Nil)
  with Suc.prems have "r < length (rows_of W (drop W xs))" by (simp add: rows_of_unfold)
  with Suc.IH [of "drop W xs"] Suc.prems(1) ne show ?case
    by (simp add: rows_of_unfold add.commute)
qed

lemma rows_of_snoc:
  "0 < W \<Longrightarrow> rows_of W (xs @ [x]) =
     (if length xs mod W = 0 then rows_of W xs @ [[x]]
      else (rows_of W xs)[length xs div W := rows_of W xs ! (length xs div W) @ [x]])"
proof (induction W xs rule: rows_of.induct)
  case (1 W xs)
  note W = \<open>0 < W\<close>
  show ?case
  proof (cases "xs = []")
    case True
    with W show ?thesis by (simp add: rows_of_unfold rows_of_Nil)
  next
    case False
    note ne = this
    show ?thesis
    proof (cases "length xs < W")
      case True
      with W ne show ?thesis by (simp add: rows_of_unfold rows_of_Nil)
    next
      case False
      then have ge: "W \<le> length xs" by simp
      from ge W have m: "length xs mod W = (length xs - W) mod W"
        by (simp add: le_mod_geq)
      from ge W have d: "length xs div W = Suc ((length xs - W) div W)"
        by (simp add: le_div_geq)
      from 1(1) W ne have IH: "rows_of W (drop W xs @ [x]) =
          (if (length xs - W) mod W = 0 then rows_of W (drop W xs) @ [[x]]
           else (rows_of W (drop W xs))[(length xs - W) div W :=
                   rows_of W (drop W xs) ! ((length xs - W) div W) @ [x]])"
        by simp
      have "rows_of W (xs @ [x]) = take W xs # rows_of W (drop W xs @ [x])"
        using W ge by (simp add: rows_of_unfold)
      with IH m d W ne show ?thesis by (simp add: rows_of_unfold)
    qed
  qed
qed

lemma row_index_in_range:
  assumes W: "0 < W" and m: "length xs mod W \<noteq> 0"
  shows "length xs div W < length (rows_of W xs)"
proof -
  from m have ne: "xs \<noteq> []" by auto
  have "length xs div W * W \<le> length xs" by simp
  moreover from m have "length xs div W * W \<noteq> length xs"
    by (metis mod_mult_self2_is_0)
  ultimately have "length xs div W * W \<le> length xs - 1" by linarith
  then have "(length xs div W * W) div W \<le> (length xs - 1) div W" by (rule div_le_mono)
  with W have "length xs div W \<le> (length xs - 1) div W" by simp
  with length_rows_of_Suc [OF W ne] show ?thesis by simp
qed

lemma keyboard_loop_rows:
  "0 < W \<Longrightarrow>
   keyboard_loop (int W) (length ds) rest (rows_of W (map keyboard_button ds)) =
     Inr (rows_of W (map keyboard_button (ds @ rest)))"
proof (induction rest arbitrary: ds)
  case Nil
  then show ?case by simp
next
  case (Cons f rest)
  note W = \<open>0 < W\<close>
  let ?kb = "rows_of W (map keyboard_button ds)"
  have snoc: "rows_of W (map keyboard_button (ds @ [f])) =
     (if length ds mod W = 0 then ?kb @ [[keyboard_button f]]
      else ?kb[length ds div W := ?kb ! (length ds div W) @ [keyboard_button f]])"
    using rows_of_snoc [OF W, of "map keyboard_button ds" "keyboard_button f"] by simp
  have m: "(int (length ds) mod int W = 0) = (length ds mod W = 0)"
    by (metis of_nat_mod of_nat_eq_0_iff)
  have d: "int (length ds) div int W = int (length ds div W)"
    by (simp add: zdiv_int)
  from Cons.IH [OF W, of "ds @ [f]"]
  have IH: "keyboard_loop (int W) (Suc (length ds)) rest (rows_of W (map keyboard_button (ds @ [f])))
     = Inr (rows_of W (map keyboard_button (ds @ f # rest)))" by simp
  show ?case
  proof (cases "length ds mod W = 0")
    case True
    with W m IH snoc show ?thesis by simp
  next
    case False
    from row_index_in_range [OF W, of "map keyboard_button ds"] False
    have "length ds div W < length ?kb" by simp
    then have "append_to_row ?kb (int (length ds div W)) (keyboard_button f) =
       Inr (?kb[length ds div W := ?kb ! (length ds div W) @ [keyboard_button f]])"
      by (simp add: append_to_row_def Let_def)
    with False W m d IH snoc show ?thesis by simp
  qed
qed

lemma get_files_keyboard_rows:
  "0 < W \<Longrightarrow> get_files_keyboard fl (int W) = Inr (rows_of W (map keyboard_button fl))"
  using keyboard_loop_rows [of W "[]" fl] by (simp add: get_files_keyboard_def rows_of_Nil)

lemma length_row_full:
  assumes W: "0 < W" and r: "Suc r < length (rows_of W xs)"
  shows "length (rows_of W xs ! r) = W"
proof -
  from r have ne: "xs \<noteq> []" by (auto simp: rows_of_Nil)
  from r length_rows_of_Suc [OF W ne] have "Suc r \<le> (length xs - 1) div W" by simp
  then have "Suc r * W \<le> (length xs - 1) div W * W" by (rule mult_le_mono1)
  also have "\<dots> \<le> length xs - 1" by simp
  finally have "r * W + W \<le> length xs - 1" by simp
  then have "W \<le> length xs - r * W" by linarith
  moreover from r have "r < length (rows_of W xs)" by simp
  ultimately show ?thesis using nth_rows_of [OF W, of r xs] by simp
qed

lemma length_row_last:
  assumes W: "0 < W" and ne: "xs \<noteq> []"
  shows "length (last (rows_of W xs)) = (if length xs mod W = 0 then W else length xs mod W)"
proof -
  let ?n = "length xs"
  let ?q = "(?n - 1) div W"
  from ne have n: "?n = Suc (?n - 1)" by (cases xs) simp_all
  have L: "length (rows_of W xs) = Suc ?q" by (rule length_rows_of_Suc [OF W ne])
  then have "rows_of W xs \<noteq> []" by auto
  then have "last (rows_of W xs) = rows_of W xs ! ?q" using L by (simp add: last_conv_nth)
  also have "\<dots> = take W (drop (?q * W) xs)" using L by (simp add: nth_rows_of [OF W])
  finally have len: "length (last (rows_of W xs)) = min W (?n - ?q * W)" by simp
  have "?n - 1 = ?q * W + (?n - 1) mod W" by simp
  with n have split: "?n - ?q * W = Suc ((?n - 1) mod W)" by linarith
  have "(?n - 1) mod W < W" using W by simp
  with split have m: "min W (?n - ?q * W) = Suc ((?n - 1) mod W)" by simp
  have "?n mod W = (if Suc ((?n - 1) mod W) = W then 0 else Suc ((?n - 1) mod W))"
    using mod_Suc [of "?n - 1" W] n by simp
  with len m show ?thesis by (simp split: if_splits)
qed

text \<open>
  C1.  For every list of \<open>N\<close> items and every positive row width \<open>W\<close>, the builder
  returns a grid of \<open>ceil(N/W)\<close> rows, written \<open>(N + W - 1) div W\<close>; every row but the
  last has \<open>W\<close> buttons, the last has \<open>N mod W\<close> buttons, or \<open>W\<close> when \<open>N mod W = 0\<close>;
  the rows hold \<open>N\<close> buttons in all, the items' buttons in their order.
\<close>

theorem get_files_keyboard_grid:
  assumes "0 < W"
  shows "\<exists>kb. get_files_keyboard fl W = Inr kb
           \<and> int (length kb) = (int (length fl) + W - 1) div W
           \<and> (\<forall>r. Suc r < length kb \<longrightarrow> int (length (kb ! r)) = W)
           \<and> (kb \<noteq> [] \<longrightarrow> int (length (last kb)) =
                  (if int (length fl) mod W = 0 then W else int (length fl) mod W))
           \<and> sum_list (map length kb) = length fl
           \<and> concat kb = map keyboard_button fl"
proof -
  from assms obtain w where w: "W = int w" "0 < w"
    by (metis zero_less_imp_eq_int)
  let ?bs = "map keyboard_button fl"
  let ?kb = "rows_of w ?bs"
  have res: "get_files_keyboard fl W = Inr ?kb"
    using get_files_keyboard_rows [OF w(2), of fl] w(1) by simp
  have cc: "concat ?kb = ?bs" by (rule concat_rows_of [OF w(2)])
  have "int (length fl + w - 1) = int (length fl) + int w - 1"
    using w(2) by (simp add: of_nat_diff)
  then have len: "int (length ?kb) = (int (length fl) + W - 1) div W"
    using length_rows_of [OF w(2), of ?bs] w(1) by (simp add: zdiv_int)
  have full: "\<forall>r. Suc r < length ?kb \<longrightarrow> int (length (?kb ! r)) = W"
  proof (intro allI impI)
    fix r
    assume "Suc r < length ?kb"
    from length_row_full [OF w(2) this] w(1) show "int (length (?kb ! r)) = W" by simp
  qed
  have lst: "?kb \<noteq> [] \<longrightarrow> int (length (last ?kb)) =
                  (if int (length fl) mod W = 0 then W else int (length fl) mod W)"
  proof
    assume "?kb \<noteq> []"
    then have "?bs \<noteq> []" by (auto simp: rows_of_Nil)
    from length_row_last [OF w(2) this]
    have "length (last ?kb) = (if length fl mod w = 0 then w else length fl mod w)" by simp
    moreover have "(int (length fl) mod int w = 0) = (length fl mod w = 0)"
      by (metis of_nat_mod of_nat_eq_0_iff)
    moreover have "int (length fl) mod int w = int (length fl mod w)"
      by (simp add: zmod_int)
    ultimately show "int (length (last ?kb)) =
                  (if int (length fl) mod W = 0 then W else int (length fl) mod W)"
      using w(1) by simp
  qed
  have "sum_list (map length ?kb) = length (concat ?kb)" by (simp add: length_concat)
  with cc have total: "sum_list (map length ?kb) = length fl" by simp
  from res len full lst total cc show ?thesis by blast
qed

theorem get_files_keyboard_grid_witness:
  "(0::int) < 2 \<and> (\<exists>kb. get_files_keyboard example_files 2 = Inr kb
           \<and> length kb = 2 \<and> length (kb ! 0) = 2 \<and> length (last kb) = 1
           \<and> sum_list (map length kb) = 3)"
proof -
  have h: "(0::int) < 2" by simp
  from get_files_keyboard_grid [OF h, of example_files]
  obtain kb where kb: "get_files_keyboard example_files 2 = Inr kb"
      "int (length kb) = (int (length example_files) + 2 - 1) div 2"
      "\<forall>r. Suc r < length kb \<longrightarrow> int (length (kb ! r)) = 2"
      "kb \<noteq> [] \<longrightarrow> int (length (last kb)) =
          (if int (length example_files) mod 2 = 0 then 2 else int (length example_files) mod 2)"
      "sum_list (map length kb) = length example_files"
    by blast
  from kb(2) have l: "length kb = 2" by (simp add: example_files_def)
  with kb(3) have "int (length (kb ! 0)) = 2" by simp
  moreover from l kb(4) have "int (length (last kb)) = 1" by (auto simp: example_files_def)
  ultimately show ?thesis using h kb(1,5) l by (simp add: example_files_def)
qed

text \<open>
  C10.  For every item list and every positive row width the builder returns a grid
  and raises nothing; whenever an item is appended to an existing row, the index
  \<open>i // row_len\<close> is a row of the keyboard built from the items before it; and the
  empty list gives the empty grid.
\<close>

theorem get_files_keyboard_total:
  assumes "0 < W"
  shows "(\<exists>kb. get_files_keyboard fl W = Inr kb)
       \<and> (\<forall>ds f rest. fl = ds @ f # rest \<and> int (length ds) mod W \<noteq> 0 \<longrightarrow>
            (\<exists>kb. get_files_keyboard ds W = Inr kb
                \<and> 0 \<le> int (length ds) div W \<and> int (length ds) div W < int (length kb)
                \<and> append_to_row kb (int (length ds) div W) (keyboard_button f) \<noteq> Inl IndexError))
       \<and> get_files_keyboard [] W = Inr []"
proof -
  from assms obtain w where w: "W = int w" "0 < w"
    by (metis zero_less_imp_eq_int)
  have res: "\<And>xs. get_files_keyboard xs W = Inr (rows_of w (map keyboard_button xs))"
    using get_files_keyboard_rows [OF w(2)] w(1) by simp
  have inb: "\<And>ds f. int (length ds) mod W \<noteq> 0 \<Longrightarrow>
      0 \<le> int (length ds) div W \<and>
      int (length ds) div W < int (length (rows_of w (map keyboard_button ds))) \<and>
      append_to_row (rows_of w (map keyboard_button ds)) (int (length ds) div W) (keyboard_button f)
        \<noteq> Inl IndexError"
  proof -
    fix ds :: "drive_file list" and f
    assume "int (length ds) mod W \<noteq> 0"
    then have "length ds mod w \<noteq> 0" using w(1) by (metis of_nat_mod of_nat_eq_0_iff)
    from row_index_in_range [OF w(2), of "map keyboard_button ds"] this
    have "length ds div w < length (rows_of w (map keyboard_button ds))" by simp
    moreover have "int (length ds) div W = int (length ds div w)"
      using w(1) by (simp add: zdiv_int)
    ultimately show "0 \<le> int (length ds) div W \<and>
      int (length ds) div W < int (length (rows_of w (map keyboard_button ds))) \<and>
      append_to_row (rows_of w (map keyboard_button ds)) (int (length ds) div W) (keyboard_button f)
        \<noteq> Inl IndexError"
      by (simp add: append_to_row_def Let_def)
  qed
  have "get_files_keyboard [] W = Inr []" by (simp add: get_files_keyboard_def)
  with res inb show ?thesis by blast
qed

theorem get_files_keyboard_total_witness:
  "(0::int) < 2 \<and> (\<exists>kb. get_files_keyboard example_files 2 = Inr kb)
     \<and> (\<exists>kb. get_files_keyboard (take 1 example_files) 2 = Inr kb \<and> 0 < length kb)"
proof -
  have h: "(0::int) < 2" by simp
  note t = get_files_keyboard_total [OF h, of example_files]
  from t have a: "\<exists>kb. get_files_keyboard example_files 2 = Inr kb" by blast
  have split: "example_files = take 1 example_files @ (example_files ! 1) # drop 2 example_files"
    by (simp add: example_files_def)
  have m: "int (length (take 1 example_files)) mod 2 \<noteq> 0"
    by (simp add: example_files_def)
  from t split m have "\<exists>kb. get_files_keyboard (take 1 example_files) 2 = Inr kb
                \<and> 0 \<le> int (length (take 1 example_files)) div 2
                \<and> int (length (take 1 example_files)) div 2 < int (length kb)"
    by blast
  then have "\<exists>kb. get_files_keyboard (take 1 example_files) 2 = Inr kb \<and> 0 < length kb"
    by (auto simp: example_files_def)
  with h a show ?thesis by blast
qed

section \<open>Action tokens\<close>

lemma prefix_append_long: "prefix p (x @ y) \<Longrightarrow> length p \<le> length x \<Longrightarrow> prefix p x"
  by (metis prefix_length_prefix prefixI)

lemma replace_scan_leftmost:
  "\<not> sublist (k # ks) (a @ butlast (k # ks)) \<Longrightarrow>
   replace_scan (k # ks) new (a @ (k # ks) @ b) = a @ new @ replace_scan (k # ks) new b"
proof (induction a)
  case Nil
  then show ?case by simp
next
  case (Cons c a)
  from Cons.prems have np: "\<not> prefix (k # ks) (c # a @ butlast (k # ks))"
    and ns: "\<not> sublist (k # ks) (a @ butlast (k # ks))"
    by (auto simp: sublist_Cons_right)
  have np': "\<not> prefix (k # ks) (c # a @ (k # ks) @ b)"
  proof
    assume p: "prefix (k # ks) (c # a @ (k # ks) @ b)"
    have "length (k # ks) \<le> length (c # a @ butlast (k # ks))" by simp
    moreover have "c # a @ (k # ks) @ b = (c # a @ butlast (k # ks)) @ (last (k # ks) # b)"
      by (metis append.assoc append_Cons append_Nil append_butlast_last_id list.distinct(1))
    ultimately have "prefix (k # ks) (c # a @ butlast (k # ks))"
      using p prefix_append_long by metis
    with np show False by simp
  qed
  have "replace_scan (k # ks) new (c # a @ (k # ks) @ b)
      = c # replace_scan (k # ks) new (a @ (k # ks) @ b)"
    using np' by auto
  with Cons.IH [OF ns] show ?case by simp
qed

text \<open>
  C9.  Decoding removes the token prefix wherever it occurs in the payload, not only
  at the front: when the occurrence after \<open>a\<close> is the leftmost one, it is dropped and
  decoding goes on with the rest.  Hence decoding the token built from an identifier
  gives the identifier back exactly when the identifier has no occurrence of
  \<open>drive_file_\<close> in it.
\<close>

theorem drive_decode_every_occurrence:
  "(\<forall>a b. \<not> sublist drive_prefix (a @ butlast drive_prefix) \<longrightarrow>
          drive_decode (a @ drive_prefix @ b) = a @ drive_decode b)
   \<and> (drive_decode (drive_encode i) = i \<longleftrightarrow> \<not> sublist drive_prefix i)"
proof -
  obtain k ks where P: "drive_prefix = k # ks"
    by (cases drive_prefix) (simp_all add: drive_prefix_def ascii_def)
  have dec: "\<And>d. drive_decode d = replace_scan (k # ks) [] d"
    by (simp add: drive_decode_def py_replace_def P)
  have first: "\<forall>a b. \<not> sublist drive_prefix (a @ butlast drive_prefix) \<longrightarrow>
          drive_decode (a @ drive_prefix @ b) = a @ drive_decode b"
    using replace_scan_leftmost [of k ks _ "[]"] by (simp add: dec P)
  have eq: "drive_decode (drive_encode i) = replace_scan (k # ks) [] i"
    using replace_scan_prefix [of k ks "[]" i] by (simp add: dec drive_encode_def P)
  have second: "drive_decode (drive_encode i) = i \<longleftrightarrow> \<not> sublist drive_prefix i"
  proof (cases "sublist (k # ks) i")
    case True
    from replace_scan_present [OF True] have "replace_scan (k # ks) [] i \<noteq> i" by auto
    with True eq P show ?thesis by simp
  next
    case False
    from replace_scan_absent [OF False] eq P False show ?thesis by simp
  qed
  from first second show ?thesis by blast
qed

theorem drive_decode_every_occurrence_witness:
  "drive_decode (ascii ''xdrive_file_y'') = ascii ''xy''
   \<and> drive_decode (drive_encode (ascii ''1aB'')) = ascii ''1aB''
   \<and> drive_decode (drive_encode (ascii ''adrive_file_b'')) \<noteq> ascii ''adrive_file_b''"
proof -
  have n1: "\<not> sublist drive_prefix (ascii ''x'' @ butlast drive_prefix)"
    by (simp add: sublist_Cons_right drive_prefix_def ascii_def)
  have n2: "\<not> sublist drive_prefix (ascii ''1aB'')"
    by (simp add: sublist_Cons_right drive_prefix_def ascii_def)
  have y3: "sublist drive_prefix (ascii ''adrive_file_b'')"
    by (simp add: sublist_Cons_right drive_prefix_def ascii_def)
  have sp: "ascii ''xdrive_file_y'' = ascii ''x'' @ drive_prefix @ ascii ''y''"
    by (simp add: drive_prefix_def ascii_def)
  have dy: "ascii ''x'' @ drive_decode (ascii ''y'') = ascii ''xy''"
    by (simp add: drive_decode_def py_replace_def drive_prefix_def ascii_def)
  from drive_decode_every_occurrence [of "ascii ''1aB''"] n1
  have "drive_decode (ascii ''x'' @ drive_prefix @ ascii ''y'') = ascii ''x'' @ drive_decode (ascii ''y'')"
    by blast
  with sp dy have a: "drive_decode (ascii ''xdrive_file_y'') = ascii ''xy''" by metis
  from drive_decode_every_occurrence [of "ascii ''1aB''"] n2
  have b: "drive_decode (drive_encode (ascii ''1aB'')) = ascii ''1aB''" by blast
  from drive_decode_every_occurrence [of "ascii ''adrive_file_b''"] y3
  have c: "drive_decode (drive_encode (ascii ''adrive_file_b'')) \<noteq> ascii ''adrive_file_b''" by blast
  from a b c show ?thesis by blast
qed

section \<open>The specification's example\<close>

text \<open>
  C7, as the code has it.  For three items that are not folders, named
  \<open>report.pdf\<close>, \<open>photo.jpg\<close> and \<open>notes.txt\<close>, and row width 2, the builder returns two
  rows, of two buttons and of one.  Each label is the glyph, two spaces and the name:
  the icon string of the table ends with a space, and the f-string adds one.
\<close>

theorem get_files_keyboard_example:
  assumes "mimeType a \<noteq> folder_mime" and "mimeType b \<noteq> folder_mime" and "mimeType c \<noteq> folder_mime"
    and "title a = ascii ''report.pdf''" and "title b = ascii ''photo.jpg''"
    and "title c = ascii ''notes.txt''"
  shows "get_files_keyboard [a, b, c] 2 =
     Inr [[\<lparr> btn_text = [0x1F4D5, 32, 32] @ ascii ''report.pdf'', callback_data = drive_prefix @ ident a \<rparr>,
           \<lparr> btn_text = [0x1F4F7, 32, 32] @ ascii ''photo.jpg'', callback_data = drive_prefix @ ident b \<rparr>],
          [\<lparr> btn_text = [0x1F4C4, 32, 32] @ ascii ''notes.txt'', callback_data = drive_prefix @ ident c \<rparr>]]"
proof -
  have fa: "formats (ascii ''pdf'') = Some (PStr icon_pdf)"
    by (simp add: formats_def fromkeys_def ascii_def)
  have fb: "formats (ascii ''jpg'') = Some (PStr icon_img)"
    by (simp add: formats_def fromkeys_def ascii_def)
  have fc: "formats (ascii ''txt'') = Some (PStr icon_doc)"
    by (simp add: formats_def fromkeys_def ascii_def)
  have ea: "file_format (ascii ''report.pdf'') = ascii ''pdf''"
    by (simp add: file_format_def last5_def ascii_def)
  have eb: "file_format (ascii ''photo.jpg'') = ascii ''jpg''"
    by (simp add: file_format_def last5_def ascii_def)
  have ec: "file_format (ascii ''notes.txt'') = ascii ''txt''"
    by (simp add: file_format_def last5_def ascii_def)
  have ba: "keyboard_button a =
      \<lparr> btn_text = [0x1F4D5, 32, 32] @ ascii ''report.pdf'', callback_data = drive_prefix @ ident a \<rparr>"
    using assms(1,4) by (simp add: keyboard_button_def icon_of_def ea fa icon_pdf_def)
  have bb: "keyboard_button b =
      \<lparr> btn_text = [0x1F4F7, 32, 32] @ ascii ''photo.jpg'', callback_data = drive_prefix @ ident b \<rparr>"
    using assms(2,5) by (simp add: keyboard_button_def icon_of_def eb fb icon_img_def)
  have bc: "keyboard_button c =
      \<lparr> btn_text = [0x1F4C4, 32, 32] @ ascii ''notes.txt'', callback_data = drive_prefix @ ident c \<rparr>"
    using assms(3,6) by (simp add: keyboard_button_def icon_of_def ec fc icon_doc_def)
  have "get_files_keyboard [a, b, c] 2 =
          Inr [[keyboard_button a, keyboard_button b], [keyboard_button c]]"
    by (simp add: get_files_keyboard_def append_to_row_def)
  with ba bb bc show ?thesis by simp
qed

theorem get_files_keyboard_example_witness:
  "get_files_keyboard example_files 2 =
     Inr [[\<lparr> btn_text = [0x1F4D5, 32, 32] @ ascii ''report.pdf'', callback_data = drive_prefix @ ascii ''id1'' \<rparr>,
           \<lparr> btn_text = [0x1F4F7, 32, 32] @ ascii ''photo.jpg'', callback_data = drive_prefix @ ascii ''id2'' \<rparr>],
          [\<lparr> btn_text = [0x1F4C4, 32, 32] @ ascii ''notes.txt'', callback_data = drive_prefix @ ascii ''id3'' \<rparr>]]"
proof -
  have m: "mimeType (example_file t i) \<noteq> folder_mime" for t i
    by (simp add: example_file_def pdf_mime_def folder_mime_def ascii_def)
  have t: "title (example_file t i) = ascii t" for t i
    by (simp add: example_file_def)
  have i: "ident (example_file t i) = ascii i" for t i
    by (simp add: example_file_def)
  from get_files_keyboard_example [OF m m m t t t, of "''id1''" "''id2''" "''id3''"]
  show ?thesis by (simp only: example_files_def i)
qed

text \<open>The labels with a single space after the glyph are not the ones returned.\<close>

theorem get_files_keyboard_example_one_space_counterexample:
  "get_files_keyboard example_files 2 \<noteq>
     Inr [[\<lparr> btn_text = [0x1F4D5, 32] @ ascii ''report.pdf'', callback_data = drive_prefix @ ascii ''id1'' \<rparr>,
           \<lparr> btn_text = [0x1F4F7, 32] @ ascii ''photo.jpg'', callback_data = drive_prefix @ ascii ''id2'' \<rparr>],
          [\<lparr> btn_text = [0x1F4C4, 32] @ ascii ''notes.txt'', callback_data = drive_prefix @ ascii ''id3'' \<rparr>]]"
proof -
  have f: "formats (ascii ''pdf'') = Some (PStr icon_pdf)"
    by (simp add: formats_def fromkeys_def ascii_def)
  have e: "file_format (ascii ''report.pdf'') = ascii ''pdf''"
    by (simp add: file_format_def last5_def ascii_def)
  have b: "btn_text (keyboard_button (example_file ''report.pdf'' ''id1''))
             = [0x1F4D5, 32, 32] @ ascii ''report.pdf''"
    by (simp add: keyboard_button_def icon_of_def example_file_def e f icon_pdf_def
          pdf_mime_def folder_mime_def) (simp add: ascii_def)
  have "get_files_keyboard example_files 2 =
          Inr [[keyboard_button (example_file ''report.pdf'' ''id1''),
                keyboard_button (example_file ''photo.jpg'' ''id2'')],
               [keyboard_button (example_file ''notes.txt'' ''id3'')]]"
    by (simp add: get_files_keyboard_def append_to_row_def example_files_def)
  moreover have "[0x1F4D5, 32, 32] @ ascii ''report.pdf'' \<noteq> [0x1F4D5, 32] @ ascii ''report.pdf''"
    by (simp add: ascii_def)
  ultimately show ?thesis using b by (auto simp del: append.simps)
qed

section \<open>The handlers\<close>

lemmas io_defs = io_bind_def io_return_def io_raise_def io_try_def io_lift_def do_call_def
  call_get_file_def call_list_files_def call_get_content_def

text \<open>
  C5.  When \<open>/drive\<close> is invoked from a group (negative chat identifier), the listing
  operation of the drive is never called.  Once \<open>check_log\<close> has returned, the handler
  sends the group warning, with \<open>/drive\<close> put in the place holder, and nothing else;
  when the send succeeds the handler returns.
\<close>

theorem drive_group_short_circuit:
  assumes "chat_id u < 0"
  shows "(\<forall>folder. ListFiles folder \<notin> set (snd (drive E u [])))
       \<and> (perform E [] (CheckLog (ascii ''drive'')) = None \<longrightarrow>
            snd (drive E u []) =
              [CheckLog (ascii ''drive''),
               SendMessage (chat_id u)
                 (py_replace (PLACE_HOLDER E) (ascii ''/drive'')
                    (get_locale E (language_code u) GROUP_WARNING_TEXT_ID)) None]
          \<and> (perform E [CheckLog (ascii ''drive'')]
                 (SendMessage (chat_id u)
                   (py_replace (PLACE_HOLDER E) (ascii ''/drive'')
                      (get_locale E (language_code u) GROUP_WARNING_TEXT_ID)) None) = None
               \<longrightarrow> fst (drive E u []) = Inr ()))"
  using assms by (auto simp: drive_def io_defs split: option.splits)

theorem drive_group_short_circuit_witness:
  "drive (example_env (example_folder []) None (\<lambda>_. None)) group_update [] =
     (Inr (), [CheckLog (ascii ''drive''),
               SendMessage (- 100) (ascii ''see /drive'') None])"
proof -
  let ?E = "example_env (example_folder []) None (\<lambda>_. None)"
  have neg: "chat_id group_update < 0" by (simp add: group_update_def example_update_def)
  have p: "\<And>h c. perform ?E h c = None" by (simp add: example_env_def)
  have msg: "py_replace (PLACE_HOLDER ?E) (ascii ''/drive'')
                    (get_locale ?E (language_code group_update) GROUP_WARNING_TEXT_ID)
             = ascii ''see /drive''"
    by (simp add: example_env_def py_replace_def ascii_def)
  have c: "chat_id group_update = - 100" by (simp add: group_update_def example_update_def)
  from drive_group_short_circuit [OF neg, of ?E] p
  have "snd (drive ?E group_update []) =
              [CheckLog (ascii ''drive''),
               SendMessage (chat_id group_update)
                 (py_replace (PLACE_HOLDER ?E) (ascii ''/drive'')
                    (get_locale ?E (language_code group_update) GROUP_WARNING_TEXT_ID)) None]"
    and "fst (drive ?E group_update []) = Inr ()"
    by simp_all
  then show ?thesis by (simp only: msg c prod_eq_iff fst_conv snd_conv simp_thms)
qed


lemma get_files_keyboard_two:
  "get_files_keyboard fl 2 = Inr (rows_of 2 (map keyboard_button fl))"
  using get_files_keyboard_rows [of 2 fl] by simp

lemma sublist_replace_scan:
  "sublist (k # ks) s \<Longrightarrow> sublist new (replace_scan (k # ks) new s)"
proof (induction s)
  case Nil
  then show ?case by simp
next
  case (Cons c cs)
  show ?case
  proof (cases "prefix (k # ks) (c # cs)")
    case True
    then have "replace_scan (k # ks) new (c # cs) =
                 new @ replace_scan (k # ks) new (drop (length ks) cs)" by auto
    then show ?thesis by (metis sublist_appendI append_Nil)
  next
    case False
    with Cons.prems have "sublist (k # ks) cs" by (auto simp: sublist_Cons_right)
    from Cons.IH [OF this] have "sublist new (c # replace_scan (k # ks) new cs)"
      by (simp add: sublist_Cons_right)
    moreover from False have "replace_scan (k # ks) new (c # cs) = c # replace_scan (k # ks) new cs"
      by auto
    ultimately show ?thesis by simp
  qed
qed

lemma sublist_py_replace: "sublist old s \<Longrightarrow> sublist new (py_replace old new s)"
proof (cases old)
  case Nil
  then show ?thesis by (metis py_replace_def sublist_appendI append_Nil)
next
  case (Cons k ks)
  assume "sublist old s"
  with Cons sublist_replace_scan [of k ks s new] show ?thesis by (simp add: py_replace_def)
qed

text \<open>
  C2.  In the folder branch, with the listing fetched, the keyboard the handler sends
  is the builder's grid for the children, followed by no row when the folder has no
  parent or its first parent is the root folder, and otherwise by exactly one row of
  exactly one back button, whose token is built from the first parent's identifier.
\<close>

theorem drive_handler_back_row:
  assumes "get_file E [] (drive_decode (data u)) = Inr f"
    and "mimeType f = folder_mime"
    and "list_files E [GetFile (drive_decode (data u))] (Some (ident f)) = Inr (Some fl)"
  shows "\<exists>kb. get_files_keyboard fl 2 = Inr kb \<and>
           take 3 (snd (drive_handler E u [])) =
             [GetFile (drive_decode (data u)), ListFiles (Some (ident f)),
              EditMessageText (user_id u) (message_id u) (title f @ ascii '':'')
                (Some (kb @ (if parents f = [] \<or> hd (parents f) = root_folder_id then []
                             else [[\<lparr> btn_text = get_locale E (language_code u) BACK_BUTTON_TEXT_TEXT_ID,
                                      callback_data = drive_encode (hd (parents f)) \<rparr>]])))]"
  using assms
  by (auto simp: drive_handler_def folder_branch_def back_row_def drive_encode_def io_defs
        get_files_keyboard_two split: option.splits)


lemma example_decode: "drive_decode (data example_update) = ascii ''abc''"
  by (simp add: example_update_def drive_decode_def py_replace_def drive_prefix_def ascii_def)

theorem drive_handler_back_row_witness:
  "(\<exists>kb. get_files_keyboard example_files 2 = Inr kb \<and>
      take 3 (snd (drive_handler
          (example_env (example_folder [ascii ''up'', ascii ''other'']) (Some example_files) (\<lambda>_. None))
          example_update [])) =
        [GetFile (ascii ''abc''), ListFiles (Some (ascii ''abc'')),
         EditMessageText 7 42 (ascii ''Notes:'')
           (Some (kb @ [[\<lparr> btn_text = ascii ''see %placeholder%'',
                            callback_data = ascii ''drive_file_up'' \<rparr>]]))])
   \<and> (\<exists>kb. get_files_keyboard example_files 2 = Inr kb \<and>
      take 3 (snd (drive_handler
          (example_env (example_folder [root_folder_id]) (Some example_files) (\<lambda>_. None))
          example_update [])) =
        [GetFile (ascii ''abc''), ListFiles (Some (ascii ''abc'')),
         EditMessageText 7 42 (ascii ''Notes:'') (Some kb)])
   \<and> (\<exists>kb. get_files_keyboard example_files 2 = Inr kb \<and>
      take 3 (snd (drive_handler
          (example_env (example_folder []) (Some example_files) (\<lambda>_. None))
          example_update [])) =
        [GetFile (ascii ''abc''), ListFiles (Some (ascii ''abc'')),
         EditMessageText 7 42 (ascii ''Notes:'') (Some kb)])"
proof -
  have g: "get_file (example_env (example_folder ps) (Some example_files) (\<lambda>_. None)) []
             (drive_decode (data example_update)) = Inr (example_folder ps)" for ps
    by (simp add: example_env_def)
  have m: "mimeType (example_folder ps) = folder_mime" for ps
    by (simp add: example_folder_def)
  have l: "list_files (example_env (example_folder ps) (Some example_files) (\<lambda>_. None))
             [GetFile (drive_decode (data example_update))] (Some (ident (example_folder ps)))
           = Inr (Some example_files)" for ps
    by (simp add: example_env_def)
  have sel: "ident (example_folder ps) = ascii ''abc''" "parents (example_folder ps) = ps"
      "title (example_folder ps) @ ascii '':'' = ascii ''Notes:''"
      "user_id example_update = 7" "message_id example_update = 42"
      "get_locale (example_env (example_folder ps) (Some example_files) (\<lambda>_. None)) lc t
         = ascii ''see %placeholder%''" for ps lc t
    by (simp_all add: example_folder_def example_update_def example_env_def ascii_def)
  have enc: "drive_encode (ascii ''up'') = ascii ''drive_file_up''"
    by (simp add: drive_encode_def drive_prefix_def ascii_def)
  have nr: "ascii ''up'' \<noteq> root_folder_id"
    by (simp add: root_folder_id_def ascii_def)
  from drive_handler_back_row [OF g m l, of "[ascii ''up'', ascii ''other'']"]
  have a: "\<exists>kb. get_files_keyboard example_files 2 = Inr kb \<and>
      take 3 (snd (drive_handler
          (example_env (example_folder [ascii ''up'', ascii ''other'']) (Some example_files) (\<lambda>_. None))
          example_update [])) =
        [GetFile (ascii ''abc''), ListFiles (Some (ascii ''abc'')),
         EditMessageText 7 42 (ascii ''Notes:'')
           (Some (kb @ [[\<lparr> btn_text = ascii ''see %placeholder%'',
                            callback_data = ascii ''drive_file_up'' \<rparr>]]))]"
    by (simp add: sel example_decode enc nr)
  from drive_handler_back_row [OF g m l, of "[root_folder_id]"]
  have b: "\<exists>kb. get_files_keyboard example_files 2 = Inr kb \<and>
      take 3 (snd (drive_handler
          (example_env (example_folder [root_folder_id]) (Some example_files) (\<lambda>_. None))
          example_update [])) =
        [GetFile (ascii ''abc''), ListFiles (Some (ascii ''abc'')),
         EditMessageText 7 42 (ascii ''Notes:'') (Some kb)]"
    by (simp add: sel example_decode)
  from drive_handler_back_row [OF g m l, of "[]"]
  have c: "\<exists>kb. get_files_keyboard example_files 2 = Inr kb \<and>
      take 3 (snd (drive_handler
          (example_env (example_folder []) (Some example_files) (\<lambda>_. None))
          example_update [])) =
        [GetFile (ascii ''abc''), ListFiles (Some (ascii ''abc'')),
         EditMessageText 7 42 (ascii ''Notes:'') (Some kb)]"
    by (simp add: sel example_decode)
  from a b c show ?thesis by blast
qed

text \<open>
  C4.  A run of the handler on a folder whose listing fails: the message is edited to
  the error text and the handler returns; the callback query is not answered.
\<close>

theorem drive_handler_failed_listing_no_answer:
  "drive_handler (example_env (example_folder []) None (\<lambda>_. None)) example_update [] =
     (Inr (), [GetFile (ascii ''abc''), ListFiles (Some (ascii ''abc'')),
               EditMessageText 7 42 (ascii ''see %placeholder%'') None])
   \<and> Answer \<notin> set (snd (drive_handler (example_env (example_folder []) None (\<lambda>_. None))
                             example_update []))"
proof -
  have "drive_handler (example_env (example_folder []) None (\<lambda>_. None)) example_update [] =
     (Inr (), [GetFile (ascii ''abc''), ListFiles (Some (ascii ''abc'')),
               EditMessageText 7 42 (ascii ''see %placeholder%'') None])"
    by (simp add: drive_handler_def folder_branch_def io_defs example_env_def
          example_folder_def example_update_def drive_decode_def py_replace_def
          drive_prefix_def ascii_def)
  then show ?thesis by simp
qed


text \<open>
  C3.  In the regular-file branch, with the size \<open>n\<close> of the re-fetched file: below
  50,000,000 the handler asks for the content buffer and, when it gets it, signals
  the uploading action and then sends the content as a document named after the
  title, and it sends no message; from 50,000,000 on it never asks for the content,
  never signals the action and never sends a document, and it sends the message
  built from the direct link, which contains the link when the template contains the
  place holder.
\<close>

theorem drive_handler_size_threshold:
  assumes "get_file E [] (drive_decode (data u)) = Inr f"
    and "mimeType f \<noteq> folder_mime" and "mimeType f \<noteq> document_mime"
    and "get_file E [GetFile (drive_decode (data u))] (ident f) = Inr fd"
    and "fileSize fd = Size n"
  shows "(n < 50000000 \<longrightarrow>
            take 3 (snd (drive_handler E u [])) =
              [GetFile (drive_decode (data u)), GetFile (ident f), GetContentIOBuffer (ident fd)]
          \<and> (\<forall>c. get_content E [GetFile (drive_decode (data u)), GetFile (ident f)] fd = Inr c
                 \<and> perform E [GetFile (drive_decode (data u)), GetFile (ident f),
                               GetContentIOBuffer (ident fd)]
                      (SendChatAction (user_id u) (ascii ''UPLOAD_DOCUMENT'')) = None
               \<longrightarrow> take 5 (snd (drive_handler E u [])) =
                     [GetFile (drive_decode (data u)), GetFile (ident f),
                      GetContentIOBuffer (ident fd),
                      SendChatAction (user_id u) (ascii ''UPLOAD_DOCUMENT''),
                      SendDocument (user_id u) c (title f)])
          \<and> (\<forall>c t k. SendMessage c t k \<notin> set (snd (drive_handler E u []))))
       \<and> (50000000 \<le> n \<longrightarrow>
            (\<forall>i. GetContentIOBuffer i \<notin> set (snd (drive_handler E u [])))
          \<and> (\<forall>c a. SendChatAction c a \<notin> set (snd (drive_handler E u [])))
          \<and> (\<forall>c d nm. SendDocument c d nm \<notin> set (snd (drive_handler E u [])))
          \<and> (\<forall>link. alternateLink fd = Some link \<longrightarrow>
                take 3 (snd (drive_handler E u [])) =
                  [GetFile (drive_decode (data u)), GetFile (ident f),
                   SendMessage (user_id u)
                     (py_replace (PLACE_HOLDER E) link
                        (get_locale E (language_code u) DRIVE_ERROR_TOO_BIG_TEXT_ID)) None]
              \<and> (sublist (PLACE_HOLDER E)
                      (get_locale E (language_code u) DRIVE_ERROR_TOO_BIG_TEXT_ID) \<longrightarrow>
                   sublist link
                     (py_replace (PLACE_HOLDER E) link
                        (get_locale E (language_code u) DRIVE_ERROR_TOO_BIG_TEXT_ID)))))"
proof -
  let ?q = "drive_decode (data u)"
  let ?tr = "snd (drive_handler E u [])"
  have small: "take 3 ?tr = [GetFile ?q, GetFile (ident f), GetContentIOBuffer (ident fd)]"
    if "n < 50000000"
    using assms that
    by (simp add: drive_handler_def file_branch_def send_file_def io_defs
          split: sum.splits option.splits prod.splits)
  have stream: "take 5 ?tr =
        [GetFile ?q, GetFile (ident f), GetContentIOBuffer (ident fd),
         SendChatAction (user_id u) (ascii ''UPLOAD_DOCUMENT''),
         SendDocument (user_id u) c (title f)]"
    if "n < 50000000" and "get_content E [GetFile ?q, GetFile (ident f)] fd = Inr c"
      and "perform E [GetFile ?q, GetFile (ident f), GetContentIOBuffer (ident fd)]
             (SendChatAction (user_id u) (ascii ''UPLOAD_DOCUMENT'')) = None" for c
    using assms that
    by (simp add: drive_handler_def file_branch_def send_file_def io_defs
          split: sum.splits option.splits prod.splits)
  have nomsg: "SendMessage c t k \<notin> set ?tr" if "n < 50000000" for c t k
    using assms that
    by (simp add: drive_handler_def file_branch_def send_file_def io_defs
          split: sum.splits option.splits prod.splits)
  have big: "GetContentIOBuffer i \<notin> set ?tr \<and> SendChatAction c a \<notin> set ?tr
             \<and> SendDocument c d nm \<notin> set ?tr"
    if "50000000 \<le> n" for i c a d nm
    using assms that
    by (simp add: drive_handler_def file_branch_def send_file_def alternate_link_def io_defs
          split: sum.splits option.splits prod.splits)
  have link: "take 3 ?tr =
        [GetFile ?q, GetFile (ident f),
         SendMessage (user_id u)
           (py_replace (PLACE_HOLDER E) l
              (get_locale E (language_code u) DRIVE_ERROR_TOO_BIG_TEXT_ID)) None]"
    if "50000000 \<le> n" and "alternateLink fd = Some l" for l
    using assms that
    by (simp add: drive_handler_def file_branch_def send_file_def alternate_link_def io_defs
          split: sum.splits option.splits prod.splits)
  from small stream nomsg big link sublist_py_replace show ?thesis by blast
qed


lemma example_sized_sel:
  "mimeType (example_sized n) \<noteq> folder_mime" "mimeType (example_sized n) \<noteq> document_mime"
  "ident (example_sized n) = ascii ''abc''" "title (example_sized n) = ascii ''report.pdf''"
  "fileSize (example_sized n) = Size n"
  "alternateLink (example_sized n) = Some (ascii ''http://x/abc'')"
  by (simp_all add: example_sized_def pdf_mime_def folder_mime_def document_mime_def ascii_def)

lemma example_env_sel:
  "get_file (example_env f l p) h i = Inr f" "get_content (example_env f l p) h x = Inr [1, 2, 3]"
  "perform (example_env f l p) h c = p c" "PLACE_HOLDER (example_env f l p) = ascii ''%placeholder%''"
  "get_locale (example_env f l p) lc t = ascii ''see %placeholder%''"
  "list_files (example_env f l p) h fo = Inr l"
  by (simp_all add: example_env_def)

lemma example_update_sel:
  "user_id example_update = 7" "message_id example_update = 42"
  "language_code example_update = None"
  by (simp_all add: example_update_def)

lemma example_link_text:
  "py_replace (ascii ''%placeholder%'') (ascii ''http://x/abc'') (ascii ''see %placeholder%'')
     = ascii ''see http://x/abc''"
  by (simp add: py_replace_def ascii_def)

theorem drive_handler_size_threshold_witness:
  "take 5 (snd (drive_handler (example_env (example_sized 49999999) None (\<lambda>_. None))
                   example_update [])) =
     [GetFile (ascii ''abc''), GetFile (ascii ''abc''), GetContentIOBuffer (ascii ''abc''),
      SendChatAction 7 (ascii ''UPLOAD_DOCUMENT''),
      SendDocument 7 [1, 2, 3] (ascii ''report.pdf'')]
   \<and> take 3 (snd (drive_handler (example_env (example_sized 60000000) None (\<lambda>_. None))
                   example_update [])) =
     [GetFile (ascii ''abc''), GetFile (ascii ''abc''),
      SendMessage 7 (ascii ''see http://x/abc'') None]
   \<and> (\<forall>c d nm. SendDocument c d nm \<notin>
          set (snd (drive_handler (example_env (example_sized 60000000) None (\<lambda>_. None))
                   example_update [])))"
proof -
  let ?E = "\<lambda>n. example_env (example_sized n) None (\<lambda>_. None)"
  note t = drive_handler_size_threshold [of "?E n" example_update "example_sized n"
             "example_sized n" n for n, OF example_env_sel(1) example_sized_sel(1,2)
             example_env_sel(1) example_sized_sel(5)]
  have lo: "(49999999::int) < 50000000" and hi: "(50000000::int) \<le> 60000000" by simp_all
  from t [of 49999999] lo
  have a: "take 5 (snd (drive_handler (?E 49999999) example_update [])) =
     [GetFile (ascii ''abc''), GetFile (ascii ''abc''), GetContentIOBuffer (ascii ''abc''),
      SendChatAction 7 (ascii ''UPLOAD_DOCUMENT''),
      SendDocument 7 [1, 2, 3] (ascii ''report.pdf'')]"
    by (simp add: example_env_sel example_sized_sel example_update_sel example_decode)
  from t [of 60000000] hi
  have b: "take 3 (snd (drive_handler (?E 60000000) example_update [])) =
     [GetFile (ascii ''abc''), GetFile (ascii ''abc''),
      SendMessage 7 (ascii ''see http://x/abc'') None]"
    by (simp add: example_env_sel example_sized_sel example_update_sel example_decode
          example_link_text)
  from t [of 60000000] hi
  have c: "\<forall>c d nm. SendDocument c d nm \<notin> set (snd (drive_handler (?E 60000000) example_update []))"
    by blast
  from a b c show ?thesis by blast
qed

text \<open>
  C6.  In the regular-file branch, when \<open>log_error\<close> and the final acknowledgement do
  not raise themselves, the handler returns normally, and its trace ends either with
  the acknowledgement or with one \<open>log_error\<close> call and the acknowledgement, no
  \<open>log_error\<close> call before them.  An exception raised by the re-fetch, by the content
  buffer, by the chat action, by the document send or by the link message is followed
  by exactly one \<open>log_error\<close> call with that exception and by the acknowledgement, and
  by nothing else: no message follows the failure.  The same holds when the size or
  the direct link is missing from the metadata.
\<close>

theorem drive_handler_file_errors_swallowed:
  assumes "get_file E [] (drive_decode (data u)) = Inr f"
    and "mimeType f \<noteq> folder_mime" and "mimeType f \<noteq> document_mime"
    and "\<forall>h e. perform E h (LogError (ascii ''drive_handler'') e) = None"
    and "\<forall>h. perform E h Answer = None"
  shows "fst (drive_handler E u []) = Inr ()
    \<and> ((\<exists>pre. snd (drive_handler E u []) = pre @ [Answer]
              \<and> (\<forall>x e. LogError x e \<notin> set pre))
       \<or> (\<exists>pre e. snd (drive_handler E u []) =
                     pre @ [LogError (ascii ''drive_handler'') e, Answer]
              \<and> (\<forall>x e. LogError x e \<notin> set pre)))
    \<and> (\<forall>e. get_file E [GetFile (drive_decode (data u))] (ident f) = Inl e \<longrightarrow>
          snd (drive_handler E u []) =
            [GetFile (drive_decode (data u)), GetFile (ident f),
             LogError (ascii ''drive_handler'') e, Answer])
    \<and> (\<forall>fd n. get_file E [GetFile (drive_decode (data u))] (ident f) = Inr fd
            \<and> fileSize fd = Size n \<and> n < 50000000 \<longrightarrow>
         (\<forall>e. get_content E [GetFile (drive_decode (data u)), GetFile (ident f)] fd = Inl e \<longrightarrow>
            snd (drive_handler E u []) =
              [GetFile (drive_decode (data u)), GetFile (ident f), GetContentIOBuffer (ident fd),
               LogError (ascii ''drive_handler'') e, Answer])
       \<and> (\<forall>c. get_content E [GetFile (drive_decode (data u)), GetFile (ident f)] fd = Inr c \<longrightarrow>
            (\<forall>e. perform E [GetFile (drive_decode (data u)), GetFile (ident f),
                             GetContentIOBuffer (ident fd)]
                    (SendChatAction (user_id u) (ascii ''UPLOAD_DOCUMENT'')) = Some e \<longrightarrow>
               snd (drive_handler E u []) =
                 [GetFile (drive_decode (data u)), GetFile (ident f),
                  GetContentIOBuffer (ident fd),
                  SendChatAction (user_id u) (ascii ''UPLOAD_DOCUMENT''),
                  LogError (ascii ''drive_handler'') e, Answer])
          \<and> (perform E [GetFile (drive_decode (data u)), GetFile (ident f),
                          GetContentIOBuffer (ident fd)]
                 (SendChatAction (user_id u) (ascii ''UPLOAD_DOCUMENT'')) = None \<longrightarrow>
               (\<forall>e. perform E [GetFile (drive_decode (data u)), GetFile (ident f),
                                GetContentIOBuffer (ident fd),
                                SendChatAction (user_id u) (ascii ''UPLOAD_DOCUMENT'')]
                       (SendDocument (user_id u) c (title f)) = Some e \<longrightarrow>
                  snd (drive_handler E u []) =
                    [GetFile (drive_decode (data u)), GetFile (ident f),
                     GetContentIOBuffer (ident fd),
                     SendChatAction (user_id u) (ascii ''UPLOAD_DOCUMENT''),
                     SendDocument (user_id u) c (title f),
                     LogError (ascii ''drive_handler'') e, Answer]))))
    \<and> (\<forall>fd n l e. get_file E [GetFile (drive_decode (data u))] (ident f) = Inr fd
            \<and> fileSize fd = Size n \<and> 50000000 \<le> n \<and> alternateLink fd = Some l
            \<and> perform E [GetFile (drive_decode (data u)), GetFile (ident f)]
                 (SendMessage (user_id u)
                    (py_replace (PLACE_HOLDER E) l
                       (get_locale E (language_code u) DRIVE_ERROR_TOO_BIG_TEXT_ID)) None) = Some e
          \<longrightarrow>
          snd (drive_handler E u []) =
            [GetFile (drive_decode (data u)), GetFile (ident f),
             SendMessage (user_id u)
               (py_replace (PLACE_HOLDER E) l
                  (get_locale E (language_code u) DRIVE_ERROR_TOO_BIG_TEXT_ID)) None,
             LogError (ascii ''drive_handler'') e, Answer])
    \<and> (\<forall>fd. get_file E [GetFile (drive_decode (data u))] (ident f) = Inr fd \<longrightarrow>
          (fileSize fd = NoSize \<longrightarrow>
             snd (drive_handler E u []) =
               [GetFile (drive_decode (data u)), GetFile (ident f),
                LogError (ascii ''drive_handler'') KeyError, Answer])
        \<and> (fileSize fd = BadSize \<longrightarrow>
             snd (drive_handler E u []) =
               [GetFile (drive_decode (data u)), GetFile (ident f),
                LogError (ascii ''drive_handler'') ValueError, Answer])
        \<and> (\<forall>n. fileSize fd = Size n \<and> 50000000 \<le> n \<and> alternateLink fd = None \<longrightarrow>
             snd (drive_handler E u []) =
               [GetFile (drive_decode (data u)), GetFile (ident f),
                LogError (ascii ''drive_handler'') KeyError, Answer]))"
proof -
  let ?q = "drive_decode (data u)"
  let ?tr = "snd (drive_handler E u [])"
  let ?hdr = "ascii ''drive_handler''"
  note defs = drive_handler_def file_branch_def send_file_def alternate_link_def io_defs
  obtain r h where sf: "send_file E u f [GetFile ?q] = (r, h)"
    by (cases "send_file E u f [GetFile ?q]")
  have dh: "drive_handler E u [] =
      (case r of Inr _ \<Rightarrow> (Inr (), h @ [Answer])
               | Inl e \<Rightarrow> (Inr (), h @ [LogError ?hdr e, Answer]))"
    using assms sf
    by (simp add: drive_handler_def file_branch_def io_bind_def io_try_def io_return_def
          do_call_def call_get_file_def split: sum.splits)
  have nolog: "LogError x e \<notin> set (snd (send_file E u f [GetFile ?q]))" for x e
    by (simp add: send_file_def alternate_link_def io_defs
          split: sum.splits option.splits prod.splits)
  from dh have ret: "fst (drive_handler E u []) = Inr ()" by (simp split: sum.splits)
  have shape: "(\<exists>pre. ?tr = pre @ [Answer] \<and> (\<forall>x e. LogError x e \<notin> set pre))
       \<or> (\<exists>pre e. ?tr = pre @ [LogError ?hdr e, Answer] \<and> (\<forall>x e. LogError x e \<notin> set pre))"
  proof (cases r)
    case (Inl e)
    with dh have "?tr = h @ [LogError ?hdr e, Answer]" by simp
    moreover from nolog sf have "\<forall>x e. LogError x e \<notin> set h" by simp
    ultimately show ?thesis by blast
  next
    case (Inr x)
    with dh have "?tr = h @ [Answer]" by simp
    moreover from nolog sf have "\<forall>x e. LogError x e \<notin> set h" by simp
    ultimately show ?thesis by blast
  qed
  have refetch: "?tr = [GetFile ?q, GetFile (ident f), LogError ?hdr e, Answer]"
    if "get_file E [GetFile ?q] (ident f) = Inl e" for e
    using assms that by (simp add: defs)
  have content: "?tr = [GetFile ?q, GetFile (ident f), GetContentIOBuffer (ident fd),
               LogError ?hdr e, Answer]"
    if "get_file E [GetFile ?q] (ident f) = Inr fd" "fileSize fd = Size n" "n < 50000000"
      "get_content E [GetFile ?q, GetFile (ident f)] fd = Inl e" for fd n e
    using assms that by (simp add: defs)
  have action: "?tr = [GetFile ?q, GetFile (ident f), GetContentIOBuffer (ident fd),
               SendChatAction (user_id u) (ascii ''UPLOAD_DOCUMENT''),
               LogError ?hdr e, Answer]"
    if "get_file E [GetFile ?q] (ident f) = Inr fd" "fileSize fd = Size n" "n < 50000000"
      "get_content E [GetFile ?q, GetFile (ident f)] fd = Inr c"
      "perform E [GetFile ?q, GetFile (ident f), GetContentIOBuffer (ident fd)]
         (SendChatAction (user_id u) (ascii ''UPLOAD_DOCUMENT'')) = Some e" for fd n c e
    using assms that by (simp add: defs)
  have document: "?tr = [GetFile ?q, GetFile (ident f), GetContentIOBuffer (ident fd),
               SendChatAction (user_id u) (ascii ''UPLOAD_DOCUMENT''),
               SendDocument (user_id u) c (title f),
               LogError ?hdr e, Answer]"
    if "get_file E [GetFile ?q] (ident f) = Inr fd" "fileSize fd = Size n" "n < 50000000"
      "get_content E [GetFile ?q, GetFile (ident f)] fd = Inr c"
      "perform E [GetFile ?q, GetFile (ident f), GetContentIOBuffer (ident fd)]
         (SendChatAction (user_id u) (ascii ''UPLOAD_DOCUMENT'')) = None"
      "perform E [GetFile ?q, GetFile (ident f), GetContentIOBuffer (ident fd),
                  SendChatAction (user_id u) (ascii ''UPLOAD_DOCUMENT'')]
         (SendDocument (user_id u) c (title f)) = Some e" for fd n c e
    using assms that by (simp add: defs)
  have link: "?tr = [GetFile ?q, GetFile (ident f),
             SendMessage (user_id u)
               (py_replace (PLACE_HOLDER E) l
                  (get_locale E (language_code u) DRIVE_ERROR_TOO_BIG_TEXT_ID)) None,
             LogError ?hdr e, Answer]"
    if "get_file E [GetFile ?q] (ident f) = Inr fd" "fileSize fd = Size n" "50000000 \<le> n"
      "alternateLink fd = Some l"
      "perform E [GetFile ?q, GetFile (ident f)]
         (SendMessage (user_id u)
            (py_replace (PLACE_HOLDER E) l
               (get_locale E (language_code u) DRIVE_ERROR_TOO_BIG_TEXT_ID)) None) = Some e"
    for fd n l e
    using assms that by (simp add: defs)
  have nosize: "?tr = [GetFile ?q, GetFile (ident f), LogError ?hdr KeyError, Answer]"
    if "get_file E [GetFile ?q] (ident f) = Inr fd" "fileSize fd = NoSize" for fd
    using assms that by (simp add: defs)
  have badsize: "?tr = [GetFile ?q, GetFile (ident f), LogError ?hdr ValueError, Answer]"
    if "get_file E [GetFile ?q] (ident f) = Inr fd" "fileSize fd = BadSize" for fd
    using assms that by (simp add: defs)
  have nolink: "?tr = [GetFile ?q, GetFile (ident f), LogError ?hdr KeyError, Answer]"
    if "get_file E [GetFile ?q] (ident f) = Inr fd" "fileSize fd = Size n" "50000000 \<le> n"
      "alternateLink fd = None" for fd n
    using assms that by (simp add: defs)
  have sites: "\<forall>fd n. get_file E [GetFile ?q] (ident f) = Inr fd
            \<and> fileSize fd = Size n \<and> n < 50000000 \<longrightarrow>
         (\<forall>e. get_content E [GetFile ?q, GetFile (ident f)] fd = Inl e \<longrightarrow>
            ?tr = [GetFile ?q, GetFile (ident f), GetContentIOBuffer (ident fd),
                   LogError ?hdr e, Answer])
       \<and> (\<forall>c. get_content E [GetFile ?q, GetFile (ident f)] fd = Inr c \<longrightarrow>
            (\<forall>e. perform E [GetFile ?q, GetFile (ident f), GetContentIOBuffer (ident fd)]
                    (SendChatAction (user_id u) (ascii ''UPLOAD_DOCUMENT'')) = Some e \<longrightarrow>
               ?tr = [GetFile ?q, GetFile (ident f), GetContentIOBuffer (ident fd),
                      SendChatAction (user_id u) (ascii ''UPLOAD_DOCUMENT''),
                      LogError ?hdr e, Answer])
          \<and> (perform E [GetFile ?q, GetFile (ident f), GetContentIOBuffer (ident fd)]
                 (SendChatAction (user_id u) (ascii ''UPLOAD_DOCUMENT'')) = None \<longrightarrow>
               (\<forall>e. perform E [GetFile ?q, GetFile (ident f), GetContentIOBuffer (ident fd),
                                SendChatAction (user_id u) (ascii ''UPLOAD_DOCUMENT'')]
                       (SendDocument (user_id u) c (title f)) = Some e \<longrightarrow>
                  ?tr = [GetFile ?q, GetFile (ident f), GetContentIOBuffer (ident fd),
                         SendChatAction (user_id u) (ascii ''UPLOAD_DOCUMENT''),
                         SendDocument (user_id u) c (title f),
                         LogError ?hdr e, Answer])))"
    using content action document by blast
  have meta: "\<forall>fd. get_file E [GetFile ?q] (ident f) = Inr fd \<longrightarrow>
          (fileSize fd = NoSize \<longrightarrow>
             ?tr = [GetFile ?q, GetFile (ident f), LogError ?hdr KeyError, Answer])
        \<and> (fileSize fd = BadSize \<longrightarrow>
             ?tr = [GetFile ?q, GetFile (ident f), LogError ?hdr ValueError, Answer])
        \<and> (\<forall>n. fileSize fd = Size n \<and> 50000000 \<le> n \<and> alternateLink fd = None \<longrightarrow>
             ?tr = [GetFile ?q, GetFile (ident f), LogError ?hdr KeyError, Answer])"
    using nosize badsize nolink by blast
  have lnk: "\<forall>fd n l e. get_file E [GetFile ?q] (ident f) = Inr fd
            \<and> fileSize fd = Size n \<and> 50000000 \<le> n \<and> alternateLink fd = Some l
            \<and> perform E [GetFile ?q, GetFile (ident f)]
                 (SendMessage (user_id u)
                    (py_replace (PLACE_HOLDER E) l
                       (get_locale E (language_code u) DRIVE_ERROR_TOO_BIG_TEXT_ID)) None) = Some e
          \<longrightarrow> ?tr = [GetFile ?q, GetFile (ident f),
             SendMessage (user_id u)
               (py_replace (PLACE_HOLDER E) l
                  (get_locale E (language_code u) DRIVE_ERROR_TOO_BIG_TEXT_ID)) None,
             LogError ?hdr e, Answer]"
    using link by blast
  have rf: "\<forall>e. get_file E [GetFile ?q] (ident f) = Inl e \<longrightarrow>
          ?tr = [GetFile ?q, GetFile (ident f), LogError ?hdr e, Answer]"
    using refetch by blast
  show ?thesis
    by (intro conjI ret shape rf sites lnk meta)
qed


theorem drive_handler_file_errors_swallowed_witness:
  "drive_handler
     ((example_env (example_sized 1000) None (\<lambda>_. None))
        \<lparr> get_file := \<lambda>h i. if h = [] then Inr (example_sized 1000)
                              else Inl (External (ascii ''timed out'')) \<rparr>)
     example_update [] =
     (Inr (), [GetFile (ascii ''abc''), GetFile (ascii ''abc''),
               LogError (ascii ''drive_handler'') (External (ascii ''timed out'')), Answer])
   \<and> drive_handler
     ((example_env (example_sized 1000) None (\<lambda>_. None))
        \<lparr> get_content := \<lambda>h x. Inl (External (ascii ''timed out'')) \<rparr>)
     example_update [] =
     (Inr (), [GetFile (ascii ''abc''), GetFile (ascii ''abc''), GetContentIOBuffer (ascii ''abc''),
               LogError (ascii ''drive_handler'') (External (ascii ''timed out'')), Answer])
   \<and> drive_handler
     (example_env (example_sized 1000) None
        (\<lambda>c. case c of SendChatAction x y \<Rightarrow> Some (External (ascii ''timed out'')) | _ \<Rightarrow> None))
     example_update [] =
     (Inr (), [GetFile (ascii ''abc''), GetFile (ascii ''abc''), GetContentIOBuffer (ascii ''abc''),
               SendChatAction 7 (ascii ''UPLOAD_DOCUMENT''),
               LogError (ascii ''drive_handler'') (External (ascii ''timed out'')), Answer])
   \<and> drive_handler (example_env (example_sized 1000) None document_send_fails) example_update [] =
     (Inr (), [GetFile (ascii ''abc''), GetFile (ascii ''abc''), GetContentIOBuffer (ascii ''abc''),
               SendChatAction 7 (ascii ''UPLOAD_DOCUMENT''),
               SendDocument 7 [1, 2, 3] (ascii ''report.pdf''),
               LogError (ascii ''drive_handler'') (External (ascii ''timed out'')), Answer])
   \<and> drive_handler
     (example_env (example_sized 60000000) None
        (\<lambda>c. case c of SendMessage x y z \<Rightarrow> Some (External (ascii ''timed out'')) | _ \<Rightarrow> None))
     example_update [] =
     (Inr (), [GetFile (ascii ''abc''), GetFile (ascii ''abc''),
               SendMessage 7 (ascii ''see http://x/abc'') None,
               LogError (ascii ''drive_handler'') (External (ascii ''timed out'')), Answer])"
proof -
  let ?err = "External (ascii ''timed out'')"
  let ?F = "example_sized 1000"
  let ?B = "example_sized 60000000"
  let ?q = "drive_decode (data example_update)"
  let ?hdr = "ascii ''drive_handler''"
  let ?E1 = "(example_env ?F None (\<lambda>_. None))
        \<lparr> get_file := \<lambda>h i. if h = [] then Inr ?F else Inl ?err \<rparr>"
  let ?E2 = "(example_env ?F None (\<lambda>_. None)) \<lparr> get_content := \<lambda>h x. Inl ?err \<rparr>"
  let ?E3 = "example_env ?F None
        (\<lambda>c. case c of SendChatAction x y \<Rightarrow> Some ?err | _ \<Rightarrow> None)"
  let ?E4 = "example_env ?F None document_send_fails"
  let ?E5 = "example_env ?B None
        (\<lambda>c. case c of SendMessage x y z \<Rightarrow> Some ?err | _ \<Rightarrow> None)"
  note sel = example_env_sel example_sized_sel example_update_sel example_decode
  have lo: "(1000::int) < 50000000" and hi: "(50000000::int) \<le> 60000000" by simp_all

  have g1: "get_file ?E1 [] ?q = Inr ?F"
    and l1: "\<forall>h e. perform ?E1 h (LogError ?hdr e) = None"
    and a1: "\<forall>h. perform ?E1 h Answer = None"
    and f1: "get_file ?E1 [GetFile ?q] (ident ?F) = Inl ?err"
    by (simp_all add: example_env_def)
  note t1 = drive_handler_file_errors_swallowed [OF g1 example_sized_sel(1,2) l1 a1]
  have "snd (drive_handler ?E1 example_update []) =
      [GetFile ?q, GetFile (ident ?F), LogError ?hdr ?err, Answer]"
    by (rule t1 [THEN conjunct2, THEN conjunct2, THEN conjunct1, THEN spec, THEN mp, OF f1])
  moreover have "fst (drive_handler ?E1 example_update []) = Inr ()"
    by (rule t1 [THEN conjunct1])
  ultimately have r1: "drive_handler ?E1 example_update [] =
     (Inr (), [GetFile (ascii ''abc''), GetFile (ascii ''abc''), LogError ?hdr ?err, Answer])"
    by (simp add: prod_eq_iff sel)

  have g2: "get_file ?E2 [] ?q = Inr ?F"
    and l2: "\<forall>h e. perform ?E2 h (LogError ?hdr e) = None"
    and a2: "\<forall>h. perform ?E2 h Answer = None"
    and f2: "get_file ?E2 [GetFile ?q] (ident ?F) = Inr ?F"
    and c2: "get_content ?E2 [GetFile ?q, GetFile (ident ?F)] ?F = Inl ?err"
    by (simp_all add: example_env_def)
  note t2 = drive_handler_file_errors_swallowed [OF g2 example_sized_sel(1,2) l2 a2]
  note s2 = t2 [THEN conjunct2, THEN conjunct2, THEN conjunct2, THEN conjunct1, THEN spec,
               THEN spec, THEN mp, OF conjI [OF f2 conjI [OF example_sized_sel(5) lo]]]
  have "snd (drive_handler ?E2 example_update []) =
      [GetFile ?q, GetFile (ident ?F), GetContentIOBuffer (ident ?F), LogError ?hdr ?err, Answer]"
    by (rule s2 [THEN conjunct1, THEN spec, THEN mp, OF c2])
  moreover have "fst (drive_handler ?E2 example_update []) = Inr ()"
    by (rule t2 [THEN conjunct1])
  ultimately have r2: "drive_handler ?E2 example_update [] =
     (Inr (), [GetFile (ascii ''abc''), GetFile (ascii ''abc''), GetContentIOBuffer (ascii ''abc''),
               LogError ?hdr ?err, Answer])"
    by (simp add: prod_eq_iff sel)

  have g3: "get_file ?E3 [] ?q = Inr ?F"
    and f3: "get_file ?E3 [GetFile ?q] (ident ?F) = Inr ?F"
    and c3: "get_content ?E3 [GetFile ?q, GetFile (ident ?F)] ?F = Inr [1, 2, 3]"
    and l3: "\<forall>h e. perform ?E3 h (LogError ?hdr e) = None"
    and a3: "\<forall>h. perform ?E3 h Answer = None"
    and p3: "perform ?E3 [GetFile ?q, GetFile (ident ?F), GetContentIOBuffer (ident ?F)]
               (SendChatAction (user_id example_update) (ascii ''UPLOAD_DOCUMENT'')) = Some ?err"
    by (simp_all add: example_env_def)
  note t3 = drive_handler_file_errors_swallowed [OF g3 example_sized_sel(1,2) l3 a3]
  note s3 = t3 [THEN conjunct2, THEN conjunct2, THEN conjunct2, THEN conjunct1, THEN spec,
               THEN spec, THEN mp, OF conjI [OF f3 conjI [OF example_sized_sel(5) lo]],
               THEN conjunct2, THEN spec, THEN mp, OF c3]
  have "snd (drive_handler ?E3 example_update []) =
      [GetFile ?q, GetFile (ident ?F), GetContentIOBuffer (ident ?F),
       SendChatAction (user_id example_update) (ascii ''UPLOAD_DOCUMENT''),
       LogError ?hdr ?err, Answer]"
    by (rule s3 [THEN conjunct1, THEN spec, THEN mp, OF p3])
  moreover have "fst (drive_handler ?E3 example_update []) = Inr ()"
    by (rule t3 [THEN conjunct1])
  ultimately have r3: "drive_handler ?E3 example_update [] =
     (Inr (), [GetFile (ascii ''abc''), GetFile (ascii ''abc''), GetContentIOBuffer (ascii ''abc''),
               SendChatAction 7 (ascii ''UPLOAD_DOCUMENT''), LogError ?hdr ?err, Answer])"
    by (simp add: prod_eq_iff sel)

  have g4: "get_file ?E4 [] ?q = Inr ?F"
    and f4: "get_file ?E4 [GetFile ?q] (ident ?F) = Inr ?F"
    and c4: "get_content ?E4 [GetFile ?q, GetFile (ident ?F)] ?F = Inr [1, 2, 3]"
    and l4: "\<forall>h e. perform ?E4 h (LogError ?hdr e) = None"
    and a4: "\<forall>h. perform ?E4 h Answer = None"
    and p4: "perform ?E4 [GetFile ?q, GetFile (ident ?F), GetContentIOBuffer (ident ?F)]
               (SendChatAction (user_id example_update) (ascii ''UPLOAD_DOCUMENT'')) = None"
    and d4: "perform ?E4 [GetFile ?q, GetFile (ident ?F), GetContentIOBuffer (ident ?F),
                          SendChatAction (user_id example_update) (ascii ''UPLOAD_DOCUMENT'')]
               (SendDocument (user_id example_update) [1, 2, 3] (title ?F)) = Some ?err"
    by (simp_all add: example_env_def)
  note t4 = drive_handler_file_errors_swallowed [OF g4 example_sized_sel(1,2) l4 a4]
  note s4 = t4 [THEN conjunct2, THEN conjunct2, THEN conjunct2, THEN conjunct1, THEN spec,
               THEN spec, THEN mp, OF conjI [OF f4 conjI [OF example_sized_sel(5) lo]],
               THEN conjunct2, THEN spec, THEN mp, OF c4]
  have "snd (drive_handler ?E4 example_update []) =
      [GetFile ?q, GetFile (ident ?F), GetContentIOBuffer (ident ?F),
       SendChatAction (user_id example_update) (ascii ''UPLOAD_DOCUMENT''),
       SendDocument (user_id example_update) [1, 2, 3] (title ?F),
       LogError ?hdr ?err, Answer]"
    by (rule s4 [THEN conjunct2, THEN mp, OF p4, THEN spec, THEN mp, OF d4])
  moreover have "fst (drive_handler ?E4 example_update []) = Inr ()"
    by (rule t4 [THEN conjunct1])
  ultimately have r4: "drive_handler ?E4 example_update [] =
     (Inr (), [GetFile (ascii ''abc''), GetFile (ascii ''abc''), GetContentIOBuffer (ascii ''abc''),
               SendChatAction 7 (ascii ''UPLOAD_DOCUMENT''),
               SendDocument 7 [1, 2, 3] (ascii ''report.pdf''), LogError ?hdr ?err, Answer])"
    by (simp add: prod_eq_iff sel)

  let ?m = "SendMessage (user_id example_update)
              (py_replace (PLACE_HOLDER ?E5) (ascii ''http://x/abc'')
                 (get_locale ?E5 (language_code example_update) DRIVE_ERROR_TOO_BIG_TEXT_ID)) None"
  have g5: "get_file ?E5 [] ?q = Inr ?B"
    and f5: "get_file ?E5 [GetFile ?q] (ident ?B) = Inr ?B"
    and l5: "\<forall>h e. perform ?E5 h (LogError ?hdr e) = None"
    and a5: "\<forall>h. perform ?E5 h Answer = None"
    and p5: "perform ?E5 [GetFile ?q, GetFile (ident ?B)] ?m = Some ?err"
    by (simp_all add: example_env_def)
  note t5 = drive_handler_file_errors_swallowed [OF g5 example_sized_sel(1,2) l5 a5]
  have "snd (drive_handler ?E5 example_update []) =
      [GetFile ?q, GetFile (ident ?B), ?m, LogError ?hdr ?err, Answer]"
    by (rule t5 [THEN conjunct2, THEN conjunct2, THEN conjunct2, THEN conjunct2, THEN conjunct1,
                 THEN spec, THEN spec, THEN spec, THEN spec, THEN mp,
                 OF conjI [OF f5 conjI [OF example_sized_sel(5) conjI [OF hi
                      conjI [OF example_sized_sel(6) p5]]]]])
  moreover have "fst (drive_handler ?E5 example_update []) = Inr ()"
    by (rule t5 [THEN conjunct1])
  ultimately have r5: "drive_handler ?E5 example_update [] =
     (Inr (), [GetFile (ascii ''abc''), GetFile (ascii ''abc''),
               SendMessage 7 (ascii ''see http://x/abc'') None, LogError ?hdr ?err, Answer])"
    by (simp add: prod_eq_iff sel example_link_text)

  from r1 r2 r3 r4 r5 show ?thesis by (intro conjI)
qed

end
